theory Spec2Isabelle
  imports Complex_Main "HOL-Library.AList" "HOL-Library.Multiset"
begin

section \<open>Strings and numbers as the JavaScript source renders them\<close>

text \<open>
  Template literals such as \<^verbatim>\<open>`box_${i}`\<close> and \<^verbatim>\<open>`drop_${Date.now()}_${n}`\<close> render a
  non-negative integer in decimal. \<open>string_of_nat\<close> is that rendering.
\<close>

definition digit_char :: "nat \<Rightarrow> char" where
  "digit_char d = ''0123456789'' ! d"

function string_of_nat :: "nat \<Rightarrow> string" where
  "string_of_nat n =
     (if n < 10 then [digit_char n]
      else string_of_nat (n div 10) @ [digit_char (n mod 10)])"
  by pat_completeness auto
termination
  by (relation "measure (\<lambda>n. n)") auto

declare string_of_nat.simps [simp del]

text \<open>The inverse reading of a digit string, used only to show that the rendering is injective.\<close>

definition digit_val :: "char \<Rightarrow> nat" where
  "digit_val c = of_char c - 48"

definition nat_of_string :: "string \<Rightarrow> nat" where
  "nat_of_string s = foldl (\<lambda>acc c. 10 * acc + digit_val c) 0 s"

text \<open>
  \<^verbatim>\<open>Math.random()\<close> returns a number \<open>r\<close> with \<open>0 \<le> r < 1\<close>. Every function that
  draws random numbers takes the drawn values as arguments; \<open>unit_draw\<close> is the contract
  of one draw.
\<close>

definition unit_draw :: "real \<Rightarrow> bool" where
  "unit_draw r \<longleftrightarrow> 0 \<le> r \<and> r < 1"

text \<open>\<^verbatim>\<open>const randInt = (min, max) => Math.floor(Math.random() * (max - min + 1)) + min\<close>\<close>

definition randInt :: "nat \<Rightarrow> nat \<Rightarrow> real \<Rightarrow> nat" where
  "randInt lo hi r = nat \<lfloor>r * real (hi - lo + 1)\<rfloor> + lo"

text \<open>\<^verbatim>\<open>const makeDropId = () => `drop_${Date.now()}_${Math.floor(Math.random() * 10000)}`\<close>\<close>

definition makeDropId :: "nat \<Rightarrow> real \<Rightarrow> string" where
  "makeDropId now r =
     ''drop_'' @ string_of_nat now @ ''_'' @ string_of_nat (nat \<lfloor>r * 10000\<rfloor>)"

text \<open>\<^verbatim>\<open>`box_${i}`\<close>, for a number \<open>i\<close> (in \<open>sendGiftDrop\<close>) and for the text taken from the
  button token (in the button handler).\<close>

definition box_of_index :: "nat \<Rightarrow> string" where
  "box_of_index i = ''box_'' @ string_of_nat i"

definition box_of_token :: "string \<Rightarrow> string" where
  "box_of_token boxIndex = ''box_'' @ boxIndex"

section \<open>Data model\<close>

type_synonym member_id = string
type_synonym drop_id = string
type_synonym box_id = string

text \<open>
  A drop as stored under \<open>storage.activeDrops[dropId]\<close>. \<open>collectedBy\<close> is a JavaScript
  object used as an insertion-ordered dictionary from box id to member id, so it is an
  association list: \<open>AList.update\<close> replaces the value of a present key in place and
  appends a new key at the end, \<open>map snd\<close> is \<^verbatim>\<open>Object.values\<close>. The message and channel
  identifiers are set only after the message has been sent.
\<close>

record drop =
  createdAt :: nat
  expiresAt :: nat
  validBoxes :: "box_id list"
  collectedBy :: "(box_id \<times> member_id) list"
  messageId :: "string option"
  channelId :: "string option"

text \<open>\<open>botSettings\<close>; a field that is \<^verbatim>\<open>undefined\<close> or \<^verbatim>\<open>null\<close> is \<open>None\<close>.\<close>

record settings =
  autoDropEnabled :: "bool option"
  dropChannelId :: "string option"

text \<open>
  The module variable \<open>storage\<close>. The two dictionaries are never \<^verbatim>\<open>null\<close> after
  \<open>loadStorage\<close>; \<open>botSettings\<close> can be, so it is an option.
\<close>

record storage =
  userCounts :: "member_id \<rightharpoonup> int"
  activeDrops :: "drop_id \<rightharpoonup> drop"
  botSettings :: "settings option"

text \<open>
  The storage file. A top-level field of the parsed document is missing, \<^verbatim>\<open>null\<close>, or
  present with a value.
\<close>

datatype 'a jfield = Missing | Null | Present 'a

record doc =
  doc_userCounts :: "(member_id \<rightharpoonup> int) jfield"
  doc_activeDrops :: "(drop_id \<rightharpoonup> drop) jfield"
  doc_botSettings :: "settings jfield"

datatype disk_file = NoFile | Unparseable | Json doc

text \<open>Pending \<^verbatim>\<open>setTimeout\<close> callbacks, each with its delay in milliseconds.\<close>

datatype timer =
    VisibilityTimer drop_id nat
  | ValidityTimer drop_id nat
  | SchedulerTimer nat

text \<open>
  The whole process state: the \<open>storage\<close> variable, the storage file, whether a write to
  the file succeeds (\<open>saveStorage\<close> catches and logs a failed write), the armed timers, and
  the log of messages that \<^verbatim>\<open>channel.send\<close> has delivered (message id and the drop shown).
\<close>

record bot =
  mem :: storage
  disk :: disk_file
  writable :: bool
  timers :: "timer list"
  posted :: "(string \<times> drop_id) list"

section \<open>Storage\<close>

text \<open>JavaScript truthiness of a value that is either absent or a string.\<close>

definition truthy :: "string option \<Rightarrow> bool" where
  "truthy v = (case v of None \<Rightarrow> False | Some s \<Rightarrow> s \<noteq> [])"

text \<open>\<^verbatim>\<open>a || b\<close> where \<open>a\<close> is \<^verbatim>\<open>null\<close>/\<^verbatim>\<open>undefined\<close> or an object (always truthy).\<close>

definition js_or :: "'a option \<Rightarrow> 'a option \<Rightarrow> 'a option" where
  "js_or a b = (case a of None \<Rightarrow> b | Some x \<Rightarrow> Some x)"

definition js_or_default :: "'a option \<Rightarrow> 'a \<Rightarrow> 'a" where
  "js_or_default a d = (case a of None \<Rightarrow> d | Some x \<Rightarrow> x)"

text \<open>
  The initial value of \<open>storage\<close>; the argument is \<^verbatim>\<open>process.env.DROP_CHANNEL_ID\<close>, and
  \<^verbatim>\<open>DROP_CHANNEL_ID = process.env.DROP_CHANNEL_ID || null\<close>.
\<close>

definition DROP_CHANNEL_ID :: "string option \<Rightarrow> string option" where
  "DROP_CHANNEL_ID envv = (if truthy envv then envv else None)"

definition initial_storage :: "string option \<Rightarrow> storage" where
  "initial_storage envv =
     \<lparr> userCounts = Map.empty,
       activeDrops = Map.empty,
       botSettings = Some \<lparr> autoDropEnabled = Some (truthy (DROP_CHANNEL_ID envv)),
                            dropChannelId = DROP_CHANNEL_ID envv \<rparr> \<rparr>"

text \<open>\<^verbatim>\<open>JSON.stringify(storage)\<close>: a \<^verbatim>\<open>null\<close> \<open>botSettings\<close> is written as \<^verbatim>\<open>null\<close>.\<close>

definition snapshot :: "storage \<Rightarrow> doc" where
  "snapshot s =
     \<lparr> doc_userCounts = Present (userCounts s),
       doc_activeDrops = Present (activeDrops s),
       doc_botSettings = (case botSettings s of None \<Rightarrow> Null | Some b \<Rightarrow> Present b) \<rparr>"

text \<open>\<open>saveStorage\<close>: overwrite the file with the current \<open>storage\<close>; a failed write is
  logged and changes nothing.\<close>

definition saveStorage :: "bot \<Rightarrow> bot" where
  "saveStorage st = (if writable st then st\<lparr>disk := Json (snapshot (mem st))\<rparr> else st)"

text \<open>\<^verbatim>\<open>Object.assign(storage, parsed)\<close> on one top-level field: a missing field keeps the
  old value, a present one (also \<^verbatim>\<open>null\<close>) replaces it.\<close>

definition assign_field :: "'a option \<Rightarrow> 'a jfield \<Rightarrow> 'a option" where
  "assign_field old f = (case f of Missing \<Rightarrow> old | Null \<Rightarrow> None | Present v \<Rightarrow> Some v)"

text \<open>
  \<open>loadStorage\<close>. After \<open>Object.assign\<close> the three fields are defaulted with \<^verbatim>\<open>||\<close>:
  \<^verbatim>\<open>storage.userCounts = storage.userCounts || {}\<close>,
  \<^verbatim>\<open>storage.activeDrops = storage.activeDrops || {}\<close>,
  \<^verbatim>\<open>storage.botSettings = storage.botSettings || storage.botSettings\<close>.
  A missing file and a parse error both end in \<open>saveStorage\<close>.
\<close>

definition loadStorage :: "bot \<Rightarrow> bot" where
  "loadStorage st =
     (case disk st of
        NoFile \<Rightarrow> saveStorage st
      | Unparseable \<Rightarrow> saveStorage st
      | Json parsed \<Rightarrow>
          (let uc = assign_field (Some (userCounts (mem st))) (doc_userCounts parsed);
               ad = assign_field (Some (activeDrops (mem st))) (doc_activeDrops parsed);
               bs = assign_field (botSettings (mem st)) (doc_botSettings parsed)
           in st\<lparr>mem := \<lparr> userCounts = js_or_default uc Map.empty,
                           activeDrops = js_or_default ad Map.empty,
                           botSettings = js_or bs bs \<rparr>\<rparr>))"

section \<open>Drop engine\<close>

subsection \<open>Creating a drop: \<open>sendGiftDrop\<close>\<close>

definition DROP_EXPIRE_HOURS :: nat where
  "DROP_EXPIRE_HOURS = 48"

definition DROP_MESSAGE_LIFETIME_MS :: nat where
  "DROP_MESSAGE_LIFETIME_MS = 10 * 1000"

text \<open>
  What one run of \<open>sendGiftDrop\<close> reads from the clock and the random source:
  \<open>now_id\<close> and \<open>rnd_id\<close> are \<^verbatim>\<open>Date.now()\<close> and \<^verbatim>\<open>Math.random()\<close> inside
  \<open>makeDropId\<close>, \<open>now_created\<close> is the \<^verbatim>\<open>Date.now()\<close> stored as \<open>createdAt\<close>,
  \<open>rnd_shuffle i\<close> is the \<^verbatim>\<open>Math.random()\<close> drawn in the shuffle iteration with loop
  counter \<open>i\<close>, and \<open>now_armed\<close> is the \<^verbatim>\<open>Date.now()\<close> read when the safety timer is armed.
\<close>

record drop_env =
  now_id :: nat
  rnd_id :: real
  now_created :: nat
  rnd_shuffle :: "nat \<Rightarrow> real"
  now_armed :: nat

text \<open>
  The shuffle loop
  \<^verbatim>\<open>for (let i = idx.length - 1; i > 0; i--) { const j = Math.floor(Math.random() * (i + 1)); [idx[i], idx[j]] = [idx[j], idx[i]]; }\<close>
  with the loop counter as the recursion argument. The destructuring assignment reads
  both elements before it writes either. With a draw in \<open>[0, 1)\<close> the index \<open>j\<close> is at
  most \<open>i\<close>, so every access is in range.
\<close>

fun shuffle_from :: "(nat \<Rightarrow> real) \<Rightarrow> nat \<Rightarrow> nat list \<Rightarrow> nat list" where
  "shuffle_from draw 0 idx = idx"
| "shuffle_from draw (Suc k) idx =
     (let i = Suc k;
          j = nat \<lfloor>draw i * real (i + 1)\<rfloor>
      in shuffle_from draw k (idx[i := idx ! j, j := idx ! i]))"

definition realIndices :: "(nat \<Rightarrow> real) \<Rightarrow> nat list" where
  "realIndices draw = (let idx = [0, 1, 2, 3] in take 2 (shuffle_from draw (length idx - 1) idx))"

definition new_drop :: "drop_env \<Rightarrow> drop" where
  "new_drop env =
     \<lparr> createdAt = now_created env,
       expiresAt = now_created env + DROP_EXPIRE_HOURS * 60 * 60 * 1000,
       validBoxes = map box_of_index (realIndices (rnd_shuffle env)),
       collectedBy = [],
       messageId = None,
       channelId = None \<rparr>"

definition env_drop_id :: "drop_env \<Rightarrow> drop_id" where
  "env_drop_id env = makeDropId (now_id env) (rnd_id env)"

text \<open>Writing one entry of \<open>storage.activeDrops\<close>, and deleting one.\<close>

definition put_drop :: "drop_id \<Rightarrow> drop \<Rightarrow> bot \<Rightarrow> bot" where
  "put_drop dropId d st = st\<lparr>mem := (mem st)\<lparr>activeDrops := (activeDrops (mem st))(dropId \<mapsto> d)\<rparr>\<rparr>"

definition delete_drop :: "drop_id \<Rightarrow> bot \<Rightarrow> bot" where
  "delete_drop dropId st = st\<lparr>mem := (mem st)\<lparr>activeDrops := (activeDrops (mem st))(dropId := None)\<rparr>\<rparr>"

text \<open>The result of \<^verbatim>\<open>await channel.send(...)\<close>: the id of the sent message, or an exception.\<close>

datatype send_result = Sent string | SendFailed

text \<open>
  \<open>sendGiftDrop\<close> up to the \<^verbatim>\<open>await channel.send\<close>: the drop is put into
  \<open>storage.activeDrops\<close> (the embeds and buttons built afterwards do not touch the state).
\<close>

definition sendGiftDrop_register :: "drop_env \<Rightarrow> bot \<Rightarrow> bot" where
  "sendGiftDrop_register env st = put_drop (env_drop_id env) (new_drop env) st"

text \<open>The message has been delivered: \<^verbatim>\<open>channel.send\<close> resolved with \<open>sent\<close>.\<close>

definition sendGiftDrop_shown :: "drop_env \<Rightarrow> string \<Rightarrow> bot \<Rightarrow> bot" where
  "sendGiftDrop_shown env sentId st = st\<lparr>posted := posted st @ [(sentId, env_drop_id env)]\<rparr>"

text \<open>
  After the \<^verbatim>\<open>await\<close>: the message and channel ids are written into the stored drop
  and \<open>saveStorage\<close> runs. If the entry is gone by then, the property write throws and the
  outer \<^verbatim>\<open>catch\<close> ends the function (\<open>None\<close>).
\<close>

definition sendGiftDrop_record :: "drop_env \<Rightarrow> string \<Rightarrow> string \<Rightarrow> bot \<Rightarrow> bot option" where
  "sendGiftDrop_record env channel sentId st =
     (case activeDrops (mem st) (env_drop_id env) of
        None \<Rightarrow> None
      | Some d \<Rightarrow>
          Some (saveStorage
                 (put_drop (env_drop_id env) (d\<lparr>messageId := Some sentId, channelId := Some channel\<rparr>) st)))"

text \<open>The two \<^verbatim>\<open>setTimeout\<close> calls; the second delay is
  \<^verbatim>\<open>Math.max(0, expiresAt - Date.now())\<close>.\<close>

definition sendGiftDrop_arm :: "drop_env \<Rightarrow> bot \<Rightarrow> bot" where
  "sendGiftDrop_arm env st =
     st\<lparr>timers := timers st @
        [VisibilityTimer (env_drop_id env) DROP_MESSAGE_LIFETIME_MS,
         ValidityTimer (env_drop_id env)
           (nat (max 0 (int (expiresAt (new_drop env)) - int (now_armed env))))]\<rparr>"

text \<open>
  The successive states of one run of \<open>sendGiftDrop\<close>, in program order: after the drop
  is registered in memory, after the message has been shown, after the save, after the
  timers are armed. A failed send is caught and logged, and the run ends with the drop
  registered in memory only.
\<close>

definition sendGiftDrop_steps :: "drop_env \<Rightarrow> string \<Rightarrow> send_result \<Rightarrow> bot \<Rightarrow> bot list" where
  "sendGiftDrop_steps env channel res st =
     (let st1 = sendGiftDrop_register env st in
      case res of
        SendFailed \<Rightarrow> [st1]
      | Sent sentId \<Rightarrow>
          (let st2 = sendGiftDrop_shown env sentId st1 in
           case sendGiftDrop_record env channel sentId st2 of
             None \<Rightarrow> [st1, st2]
           | Some st3 \<Rightarrow> [st1, st2, st3, sendGiftDrop_arm env st3]))"

definition sendGiftDrop :: "drop_env \<Rightarrow> string \<Rightarrow> send_result \<Rightarrow> bot \<Rightarrow> bot" where
  "sendGiftDrop env channel res st = last (sendGiftDrop_steps env channel res st)"

text \<open>A drop is durably recorded when the storage file holds an entry for its id.\<close>

definition disk_drop :: "bot \<Rightarrow> drop_id \<Rightarrow> drop option" where
  "disk_drop st dropId =
     (case disk st of
        Json d \<Rightarrow> (case doc_activeDrops d of Present m \<Rightarrow> m dropId | _ \<Rightarrow> None)
      | _ \<Rightarrow> None)"

definition on_disk :: "drop_id \<Rightarrow> bot \<Rightarrow> bool" where
  "on_disk dropId st \<longleftrightarrow> disk_drop st dropId \<noteq> None"

text \<open>The count of a member and the settings, as the storage file holds them.\<close>

definition disk_count :: "bot \<Rightarrow> member_id \<Rightarrow> int option" where
  "disk_count st m =
     (case disk st of
        Json d \<Rightarrow> (case doc_userCounts d of Present u \<Rightarrow> u m | _ \<Rightarrow> None)
      | _ \<Rightarrow> None)"

definition disk_settings :: "bot \<Rightarrow> settings option" where
  "disk_settings st =
     (case disk st of
        Json d \<Rightarrow> (case doc_botSettings d of Present b \<Rightarrow> Some b | _ \<Rightarrow> None)
      | _ \<Rightarrow> None)"

definition shown :: "drop_id \<Rightarrow> bot \<Rightarrow> bool" where
  "shown dropId st \<longleftrightarrow> dropId \<in> snd ` set (posted st)"

subsection \<open>The two per-drop timers\<close>

text \<open>
  Both callbacks do \<^verbatim>\<open>if (storage.activeDrops[dropId]) { delete storage.activeDrops[dropId]; saveStorage(); }\<close>;
  the visibility callback then asks the platform to delete the message, which does not
  touch the state modelled here. A fired timer is no longer pending.
\<close>

definition expire_if_active :: "drop_id \<Rightarrow> bot \<Rightarrow> bot" where
  "expire_if_active dropId st =
     (if activeDrops (mem st) dropId \<noteq> None then saveStorage (delete_drop dropId st) else st)"

definition visibility_fire :: "drop_id \<Rightarrow> nat \<Rightarrow> bot \<Rightarrow> bot" where
  "visibility_fire dropId delay st =
     expire_if_active dropId (st\<lparr>timers := remove1 (VisibilityTimer dropId delay) (timers st)\<rparr>)"

definition validity_fire :: "drop_id \<Rightarrow> nat \<Rightarrow> bot \<Rightarrow> bot" where
  "validity_fire dropId delay st =
     expire_if_active dropId (st\<lparr>timers := remove1 (ValidityTimer dropId delay) (timers st)\<rparr>)"

subsection \<open>Claiming a box: the button handler\<close>

text \<open>
  What the troll-box branch learns from the platform: whether \<open>interaction.guild\<close> is
  set, whether \<open>ensureSantaRole\<close> returned a role, whether the bot's highest role is above
  that role, and whether \<^verbatim>\<open>member.roles.add\<close> succeeded.
\<close>

record troll_env =
  guild_present :: bool
  role_present :: bool
  bot_outranks :: bool
  add_ok :: bool

datatype penalty =
    GuildMissing | RoleUnavailable | HierarchyBlocked | RoleAssigned | RoleAssignFailed

definition troll_penalty :: "troll_env \<Rightarrow> penalty" where
  "troll_penalty e =
     (if \<not> guild_present e then GuildMissing
      else if \<not> role_present e then RoleUnavailable
      else if \<not> bot_outranks e then HierarchyBlocked
      else if add_ok e then RoleAssigned
      else RoleAssignFailed)"

text \<open>
  The replies of the handler. The source only has the reply texts; the names are the
  spec's, with \<open>MemberMissing\<close> for the reply "Member info missing.".
\<close>

datatype outcome =
    DropNotFound | DropExpired | SlotAlreadyClaimed | MemberMissing
  | MemberAlreadyClaimed | Prize | Trollbox penalty

text \<open>\<^verbatim>\<open>drop.collectedBy[boxId] = member.id\<close> on the drop stored under \<open>dropId\<close>
  (\<open>drop\<close> is the stored object itself, not a copy).\<close>

definition mark_collected :: "drop_id \<Rightarrow> drop \<Rightarrow> box_id \<Rightarrow> member_id \<Rightarrow> bot \<Rightarrow> bot" where
  "mark_collected dropId d boxId m st =
     put_drop dropId (d\<lparr>collectedBy := AList.update boxId m (collectedBy d)\<rparr>) st"

text \<open>\<^verbatim>\<open>storage.userCounts[member.id] = (storage.userCounts[member.id] || 0) + 1\<close>\<close>

definition tally :: "storage \<Rightarrow> member_id \<Rightarrow> int" where
  "tally s m = (case userCounts s m of None \<Rightarrow> 0 | Some c \<Rightarrow> c)"

definition bump_count :: "member_id \<Rightarrow> bot \<Rightarrow> bot" where
  "bump_count m st = st\<lparr>mem := (mem st)\<lparr>userCounts := (userCounts (mem st))(m \<mapsto> tally (mem st) m + 1)\<rparr>\<rparr>"

text \<open>
  The button handler for a token \<^verbatim>\<open>collect:<dropId>:<boxIndex>\<close>, at clock reading \<open>now\<close>,
  pressed by \<open>member\<close> (\<open>None\<close> when \<open>interaction.member\<close> is missing). Everything up to the
  tally update runs before the handler's first \<^verbatim>\<open>await\<close>, so no other handler interleaves.
\<close>

definition collect ::
  "nat \<Rightarrow> drop_id \<Rightarrow> string \<Rightarrow> member_id option \<Rightarrow> troll_env \<Rightarrow> bot \<Rightarrow> outcome \<times> bot" where
  "collect now dropId boxIndex member env st =
     (let boxId = box_of_token boxIndex in
      case activeDrops (mem st) dropId of
        None \<Rightarrow> (DropNotFound, st)
      | Some d \<Rightarrow>
          if now > expiresAt d then (DropExpired, saveStorage (delete_drop dropId st))
          else if truthy (map_of (collectedBy d) boxId) then (SlotAlreadyClaimed, st)
          else
            (case member of
               None \<Rightarrow> (MemberMissing, st)
             | Some m \<Rightarrow>
                 if m \<in> set (map snd (collectedBy d)) then (MemberAlreadyClaimed, st)
                 else
                   (let isReal = boxId \<in> set (validBoxes d);
                        st1 = saveStorage (mark_collected dropId d boxId m st)
                    in if isReal then (Prize, bump_count m st1)
                       else (Trollbox (troll_penalty env), st1))))"

section \<open>Scheduler\<close>

text \<open>
  \<open>scheduleNextDrop\<close>: \<^verbatim>\<open>const minutes = randInt(5, 10); const delay = minutes * 60 * 1000; setTimeout(..., delay)\<close>.
  The argument is the \<^verbatim>\<open>Math.random()\<close> drawn by this call.
\<close>

definition next_delay :: "real \<Rightarrow> nat" where
  "next_delay r = randInt 5 10 r * 60 * 1000"

definition is_scheduler :: "timer \<Rightarrow> bool" where
  "is_scheduler t = (case t of SchedulerTimer _ \<Rightarrow> True | _ \<Rightarrow> False)"

definition scheduleNextDrop :: "real \<Rightarrow> bot \<Rightarrow> bot" where
  "scheduleNextDrop r st = st\<lparr>timers := timers st @ [SchedulerTimer (next_delay r)]\<rparr>"

text \<open>
  What the timer callback finds for one guild of \<open>client.guilds.cache\<close>: no channel
  (lookup and fetch both empty), a channel whose \<open>isText()\<close> is false, a channel on which
  the \<open>isText()\<close> call throws, or a text channel, with everything the \<open>sendGiftDrop\<close>
  run in it reads.
\<close>

datatype guild_visit =
    ChannelAbsent
  | ChannelNotText
  | ChannelCheckThrows
  | ChannelText drop_env string send_result

text \<open>The \<^verbatim>\<open>for (const [gid] of client.guilds.cache)\<close> loop; the first component of the
  result says whether an exception left the loop.\<close>

fun auto_drop_loop :: "guild_visit list \<Rightarrow> bot \<Rightarrow> bool \<times> bot" where
  "auto_drop_loop [] st = (False, st)"
| "auto_drop_loop (ChannelAbsent # gs) st = auto_drop_loop gs st"
| "auto_drop_loop (ChannelNotText # gs) st = auto_drop_loop gs st"
| "auto_drop_loop (ChannelCheckThrows # gs) st = (True, st)"
| "auto_drop_loop (ChannelText env channel res # gs) st =
     auto_drop_loop gs (sendGiftDrop env channel res st)"

text \<open>
  The \<^verbatim>\<open>try\<close> block of the callback: \<^verbatim>\<open>storage.botSettings.dropChannelId\<close> throws when
  \<open>botSettings\<close> is \<^verbatim>\<open>null\<close>; a falsy channel id skips the loop.
\<close>

definition auto_drop_attempt :: "guild_visit list \<Rightarrow> bot \<Rightarrow> bool \<times> bot" where
  "auto_drop_attempt gs st =
     (case botSettings (mem st) of
        None \<Rightarrow> (True, st)
      | Some b \<Rightarrow> if truthy (dropChannelId b) then auto_drop_loop gs st else (False, st))"

text \<open>
  The callback armed by \<open>scheduleNextDrop\<close>:
  \<^verbatim>\<open>try { ... } catch (e) { console.error(...) } finally { scheduleNextDrop(); }\<close>.
  \<open>delay\<close> identifies the timer that fired, \<open>r\<close> is the draw of the re-arming call.
\<close>

definition scheduler_fire :: "nat \<Rightarrow> guild_visit list \<Rightarrow> real \<Rightarrow> bot \<Rightarrow> bot" where
  "scheduler_fire delay gs r st =
     (let st0 = st\<lparr>timers := remove1 (SchedulerTimer delay) (timers st)\<rparr>;
          (threw, st1) = auto_drop_attempt gs st0
      in scheduleNextDrop r st1)"

text \<open>
  The \<open>ready\<close> handler: \<open>loadStorage\<close>, then the scheduler is armed when
  \<^verbatim>\<open>storage.botSettings.autoDropEnabled && storage.botSettings.dropChannelId\<close>. Reading a
  field of a \<^verbatim>\<open>null\<close> \<open>botSettings\<close> throws (\<open>None\<close>).
\<close>

definition ready :: "real \<Rightarrow> bot \<Rightarrow> bot option" where
  "ready r st =
     (let st1 = loadStorage st in
      case botSettings (mem st1) of
        None \<Rightarrow> None
      | Some b \<Rightarrow>
          if autoDropEnabled b = Some True \<and> truthy (dropChannelId b)
          then Some (scheduleNextDrop r st1)
          else Some st1)"

section \<open>Owner commands\<close>

text \<open>\<open>isOwnerId\<close>: \<^verbatim>\<open>String(id) === String(OWNER_ID)\<close>.\<close>

definition isOwnerId :: "string \<Rightarrow> string \<Rightarrow> bool" where
  "isOwnerId OWNER_ID uid \<longleftrightarrow> uid = OWNER_ID"

record channel_opt =
  chan_id :: string
  chan_is_text :: bool

datatype reply = OwnerOnly | PickTextChannel | Done

text \<open>\<^verbatim>\<open>storage.botSettings = storage.botSettings || {}\<close>\<close>

definition settings_or_empty :: "settings option \<Rightarrow> settings" where
  "settings_or_empty b = js_or_default b \<lparr> autoDropEnabled = None, dropChannelId = None \<rparr>"

definition put_settings :: "settings \<Rightarrow> bot \<Rightarrow> bot" where
  "put_settings b st = st\<lparr>mem := (mem st)\<lparr>botSettings := Some b\<rparr>\<rparr>"

text \<open>\<open>/set_drop_channel\<close>\<close>

definition set_drop_channel :: "string \<Rightarrow> string \<Rightarrow> channel_opt option \<Rightarrow> bot \<Rightarrow> reply \<times> bot" where
  "set_drop_channel OWNER_ID uid channel st =
     (if \<not> isOwnerId OWNER_ID uid then (OwnerOnly, st)
      else case channel of
        None \<Rightarrow> (PickTextChannel, st)
      | Some c \<Rightarrow>
          if \<not> chan_is_text c then (PickTextChannel, st)
          else (Done,
                saveStorage
                  (put_settings
                     ((settings_or_empty (botSettings (mem st)))
                        \<lparr>dropChannelId := Some (chan_id c), autoDropEnabled := Some True\<rparr>) st)))"

text \<open>\<open>/toggle_auto\<close>: \<^verbatim>\<open>autoDropEnabled = !autoDropEnabled\<close>, where \<^verbatim>\<open>!undefined\<close> is true.\<close>

definition js_not :: "bool option \<Rightarrow> bool" where
  "js_not b = (case b of None \<Rightarrow> True | Some v \<Rightarrow> \<not> v)"

definition toggle_auto :: "string \<Rightarrow> string \<Rightarrow> bot \<Rightarrow> reply \<times> bot" where
  "toggle_auto OWNER_ID uid st =
     (if \<not> isOwnerId OWNER_ID uid then (OwnerOnly, st)
      else
        (let b = settings_or_empty (botSettings (mem st))
         in (Done, saveStorage (put_settings (b\<lparr>autoDropEnabled := Some (js_not (autoDropEnabled b))\<rparr>) st))))"

text \<open>\<open>/reset_counts\<close>\<close>

definition reset_counts :: "string \<Rightarrow> string \<Rightarrow> bot \<Rightarrow> reply \<times> bot" where
  "reset_counts OWNER_ID uid st =
     (if \<not> isOwnerId OWNER_ID uid then (OwnerOnly, st)
      else (Done, saveStorage (st\<lparr>mem := (mem st)\<lparr>userCounts := Map.empty\<rparr>\<rparr>)))"

section \<open>Runs of the bot\<close>

text \<open>
  One unit of work of the process: a button press, a firing timer, a drop created by
  \<open>/drop\<close> or \<open>/force_drop\<close>, an owner command, a restart of the process, or the
  \<open>ready\<close> handler. A restart gives \<open>storage\<close> its initial value again (the argument is
  \<^verbatim>\<open>process.env.DROP_CHANNEL_ID\<close>), loses the pending timers and runs the \<open>loadStorage\<close>
  call of the start-up code. The \<open>ready\<close> handler runs \<open>loadStorage\<close> once more; when it
  throws afterwards, the loaded state stays.
\<close>

datatype event =
    Collect nat drop_id string "member_id option" troll_env
  | FireVisibility drop_id nat
  | FireValidity drop_id nat
  | FireScheduler nat "guild_visit list" real
  | SendDrop drop_env string send_result
  | SetDropChannel string "channel_opt option"
  | ToggleAuto string
  | ResetCounts string
  | Restart "string option"
  | Ready real

fun step :: "string \<Rightarrow> event \<Rightarrow> bot \<Rightarrow> bot" where
  "step OWNER_ID (Collect now dropId boxIndex member env) st = snd (collect now dropId boxIndex member env st)"
| "step OWNER_ID (FireVisibility dropId delay) st = visibility_fire dropId delay st"
| "step OWNER_ID (FireValidity dropId delay) st = validity_fire dropId delay st"
| "step OWNER_ID (FireScheduler delay gs r) st = scheduler_fire delay gs r st"
| "step OWNER_ID (SendDrop env channel res) st = sendGiftDrop env channel res st"
| "step OWNER_ID (SetDropChannel uid channel) st = snd (set_drop_channel OWNER_ID uid channel st)"
| "step OWNER_ID (ToggleAuto uid) st = snd (toggle_auto OWNER_ID uid st)"
| "step OWNER_ID (ResetCounts uid) st = snd (reset_counts OWNER_ID uid st)"
| "step OWNER_ID (Restart envv) st = loadStorage (st\<lparr>mem := initial_storage envv, timers := []\<rparr>)"
| "step OWNER_ID (Ready r) st = (case ready r st of None \<Rightarrow> loadStorage st | Some st' \<Rightarrow> st')"

fun run :: "string \<Rightarrow> event list \<Rightarrow> bot \<Rightarrow> bot" where
  "run OWNER_ID [] st = st"
| "run OWNER_ID (e # es) st = run OWNER_ID es (step OWNER_ID e st)"

text \<open>The drop ids under which an event may register a new drop.\<close>

fun visit_ids :: "guild_visit \<Rightarrow> drop_id list" where
  "visit_ids (ChannelText env channel res) = [env_drop_id env]"
| "visit_ids _ = []"

fun created_ids :: "event \<Rightarrow> drop_id list" where
  "created_ids (SendDrop env channel res) = [env_drop_id env]"
| "created_ids (FireScheduler delay gs r) = concat (map visit_ids gs)"
| "created_ids _ = []"

text \<open>The events that read the storage file back into memory.\<close>

fun reloads :: "event \<Rightarrow> bool" where
  "reloads (Restart envv) = True"
| "reloads (Ready r) = True"
| "reloads _ = False"

text \<open>A drop id is gone when neither memory nor the storage file holds an entry for it.\<close>

definition gone :: "drop_id \<Rightarrow> bot \<Rightarrow> bool" where
  "gone dropId st \<longleftrightarrow> activeDrops (mem st) dropId = None \<and> disk_drop st dropId = None"

text \<open>Every recorded claimant is a non-empty member id (platform member ids are
  non-empty decimal strings).\<close>

definition claimants_nonempty :: "drop \<Rightarrow> bool" where
  "claimants_nonempty d \<longleftrightarrow> [] \<notin> snd ` set (collectedBy d)"

section \<open>Example states\<close>

text \<open>
  A drop created at clock reading 1000 whose winning boxes are 0 and 2, shown as message
  \<open>m1\<close> in channel \<open>c1\<close>; a bot that holds only this drop, saved; and the same bot
  after member \<open>A\<close> has taken box 0.
\<close>

definition demo_id :: drop_id where
  "demo_id = ''drop_1000_42''"

definition demo_drop :: drop where
  "demo_drop =
     \<lparr> createdAt = 1000, expiresAt = 172801000,
       validBoxes = [''box_0'', ''box_2''], collectedBy = [],
       messageId = Some ''m1'', channelId = Some ''c1'' \<rparr>"

definition demo_settings :: settings where
  "demo_settings = \<lparr> autoDropEnabled = Some False, dropChannelId = None \<rparr>"

definition demo_storage :: storage where
  "demo_storage =
     \<lparr> userCounts = Map.empty, activeDrops = [demo_id \<mapsto> demo_drop],
       botSettings = Some demo_settings \<rparr>"

definition demo_bot :: bot where
  "demo_bot =
     \<lparr> mem = demo_storage, disk = Json (snapshot demo_storage), writable = True,
       timers = [VisibilityTimer demo_id 10000, ValidityTimer demo_id 172800000],
       posted = [(''m1'', demo_id)] \<rparr>"

definition demo_troll :: troll_env where
  "demo_troll = \<lparr> guild_present = True, role_present = True, bot_outranks = True, add_ok = True \<rparr>"

definition demo_bot_claimed :: bot where
  "demo_bot_claimed = snd (collect 2000 demo_id ''0'' (Some ''A'') demo_troll demo_bot)"

text \<open>A freshly started bot with no drop channel configured and nothing on disk.\<close>

definition fresh_bot :: bot where
  "fresh_bot =
     \<lparr> mem = initial_storage None, disk = NoFile, writable = True, timers = [], posted = [] \<rparr>"

text \<open>The reads of one \<open>sendGiftDrop\<close> run at clock reading 1000 with every draw \<open>1/2\<close>.\<close>

definition demo_env :: drop_env where
  "demo_env =
     \<lparr> now_id = 1000, rnd_id = 1/2, now_created = 1000, rnd_shuffle = (\<lambda>i. 1/2), now_armed = 1001 \<rparr>"

text \<open>A storage file whose document is \<^verbatim>\<open>{"botSettings": null}\<close>, and a freshly started
  bot that finds it.\<close>

definition null_settings_doc :: doc where
  "null_settings_doc =
     \<lparr> doc_userCounts = Missing, doc_activeDrops = Missing, doc_botSettings = Null \<rparr>"

definition null_settings_bot :: bot where
  "null_settings_bot = fresh_bot\<lparr>disk := Json null_settings_doc\<rparr>"

text \<open>A text channel \<open>c1\<close> as the argument of \<open>/set_drop_channel\<close>.\<close>

definition demo_channel :: channel_opt where
  "demo_channel = \<lparr> chan_id = ''c1'', chan_is_text = True \<rparr>"

text \<open>A later stretch of work: member \<open>B\<close> presses a button of the demo drop, its safety
  timer fires, the owner resets the counts, and a new drop is sent. The longer stretch
  goes on with a restart of the process and its \<open>ready\<close> handler.\<close>

definition demo_events :: "event list" where
  "demo_events =
     [Collect 3000 demo_id ''1'' (Some ''B'') demo_troll,
      FireValidity demo_id 172800000,
      ResetCounts ''owner'',
      SendDrop demo_env ''c1'' (Sent ''m2'')]"

definition demo_events_restart :: "event list" where
  "demo_events_restart = demo_events @ [Restart None, Ready (1/2)]"

text \<open>A run of \<open>sendGiftDrop\<close> that builds the id of the demo drop again, and the demo bot
  with a storage file that cannot be written.\<close>

definition reuse_env :: drop_env where
  "reuse_env = demo_env\<lparr>rnd_id := 42/10000\<rparr>"

definition unwritable_bot :: bot where
  "unwritable_bot = demo_bot\<lparr>writable := False\<rparr>"

text \<open>Two runs of \<open>sendGiftDrop\<close> in the same clock millisecond whose random draws for
  the id differ but have the same first four decimals.\<close>

definition clash_env_a :: drop_env where
  "clash_env_a = demo_env\<lparr>now_id := 1700000000000, rnd_id := 1/2\<rparr>"

definition clash_env_b :: drop_env where
  "clash_env_b = demo_env\<lparr>now_id := 1700000000000, rnd_id := 50001/100000\<rparr>"

text \<open>Shuffle draws that make loop iteration \<open>i\<close> pick index \<open>j i\<close>.\<close>

definition draws_for :: "nat \<Rightarrow> nat \<Rightarrow> nat \<Rightarrow> nat \<Rightarrow> real" where
  "draws_for j3 j2 j1 i =
     (if i = 3 then real j3 / 4 else if i = 2 then real j2 / 3 else real j1 / 2)"

text \<open>A bot started with drop channel \<open>c1\<close> configured, its scheduler armed with a
  five-minute delay.\<close>

definition auto_bot :: bot where
  "auto_bot =
     \<lparr> mem = initial_storage (Some ''c1''), disk = Json (snapshot (initial_storage (Some ''c1''))),
       writable = True, timers = [SchedulerTimer 300000], posted = [] \<rparr>"

text \<open>
  The three ways a drop leaves the active set: its visibility timer fires, its validity
  timer fires, or a button press finds it expired.
\<close>

definition removes :: "drop_id \<Rightarrow> bot \<Rightarrow> bot \<Rightarrow> bool" where
  "removes dropId st st1 \<longleftrightarrow>
     (\<exists>delay. st1 = visibility_fire dropId delay st)
     \<or> (\<exists>delay. st1 = validity_fire dropId delay st)
     \<or> (\<exists>now boxIndex member env.
          fst (collect now dropId boxIndex member env st) = DropExpired
          \<and> st1 = snd (collect now dropId boxIndex member env st))"

text \<open>The three shuffle draws of one \<open>sendGiftDrop\<close> run honour the contract of
  \<^verbatim>\<open>Math.random()\<close>.\<close>

definition shuffle_draws_ok :: "(nat \<Rightarrow> real) \<Rightarrow> bool" where
  "shuffle_draws_ok draw \<longleftrightarrow> unit_draw (draw 1) \<and> unit_draw (draw 2) \<and> unit_draw (draw 3)"

section \<open>Decimal rendering is injective\<close>

lemma digit_cases:
  assumes "d < (10::nat)"
  obtains "d = 0" | "d = 1" | "d = 2" | "d = 3" | "d = 4"
        | "d = 5" | "d = 6" | "d = 7" | "d = 8" | "d = 9"
proof -
  have "d \<in> {0, 1, 2, 3, 4, 5, 6, 7, 8, 9}" using assms by auto
  then show thesis using that by blast
qed

lemma digit_val_char: "d < 10 \<Longrightarrow> digit_val (digit_char d) = d"
  by (erule digit_cases) (simp_all add: digit_val_def digit_char_def)

lemma digit_char_not_underscore: "d < 10 \<Longrightarrow> digit_char d \<noteq> CHR ''_''"
  by (erule digit_cases) (simp_all add: digit_char_def)

lemma nat_of_string_snoc: "nat_of_string (s @ [c]) = 10 * nat_of_string s + digit_val c"
  by (simp add: nat_of_string_def)

lemma nat_of_string_of_nat: "nat_of_string (string_of_nat n) = n"
proof (induction n rule: string_of_nat.induct)
  case (1 n)
  show ?case
  proof (cases "n < 10")
    case True
    then show ?thesis
      by (subst string_of_nat.simps) (simp add: nat_of_string_def digit_val_char)
  next
    case False
    then have "nat_of_string (string_of_nat (n div 10)) = n div 10"
      using 1 by simp
    then show ?thesis using False
      by (subst string_of_nat.simps) (simp add: nat_of_string_snoc digit_val_char)
  qed
qed

lemma string_of_nat_inj: "string_of_nat a = string_of_nat b \<longleftrightarrow> a = b"
  by (metis nat_of_string_of_nat)

lemma underscore_notin_string_of_nat: "CHR ''_'' \<notin> set (string_of_nat n)"
proof (induction n rule: string_of_nat.induct)
  case (1 n)
  show ?case
  proof (cases "n < 10")
    case True
    then show ?thesis
      using digit_char_not_underscore[of n] by (subst string_of_nat.simps) auto
  next
    case False
    then have "CHR ''_'' \<notin> set (string_of_nat (n div 10))"
      using 1 by simp
    moreover have "digit_char (n mod 10) \<noteq> CHR ''_''"
      by (intro digit_char_not_underscore) simp
    ultimately show ?thesis using False
      by (subst string_of_nat.simps) auto
  qed
qed

lemma split_at_separator:
  assumes "c \<notin> set xs" "c \<notin> set xs'" "xs @ c # ys = xs' @ c # ys'"
  shows "xs = xs' \<and> ys = ys'"
proof -
  have "takeWhile (\<lambda>x. x \<noteq> c) (xs @ c # ys) = xs"
    using assms(1) by (auto simp: takeWhile_tail)
  moreover have "takeWhile (\<lambda>x. x \<noteq> c) (xs' @ c # ys') = xs'"
    using assms(2) by (auto simp: takeWhile_tail)
  ultimately have "xs = xs'" using assms(3) by simp
  then show ?thesis using assms(3) by simp
qed

lemma makeDropId_eq_iff:
  "makeDropId t1 r1 = makeDropId t2 r2 \<longleftrightarrow>
     t1 = t2 \<and> nat \<lfloor>r1 * 10000\<rfloor> = nat \<lfloor>r2 * 10000\<rfloor>"
proof
  assume "makeDropId t1 r1 = makeDropId t2 r2"
  then have "string_of_nat t1 @ CHR ''_'' # string_of_nat (nat \<lfloor>r1 * 10000\<rfloor>)
           = string_of_nat t2 @ CHR ''_'' # string_of_nat (nat \<lfloor>r2 * 10000\<rfloor>)"
    by (simp add: makeDropId_def)
  from split_at_separator[OF underscore_notin_string_of_nat underscore_notin_string_of_nat this]
  show "t1 = t2 \<and> nat \<lfloor>r1 * 10000\<rfloor> = nat \<lfloor>r2 * 10000\<rfloor>"
    by (simp add: string_of_nat_inj)
next
  assume "t1 = t2 \<and> nat \<lfloor>r1 * 10000\<rfloor> = nat \<lfloor>r2 * 10000\<rfloor>"
  then show "makeDropId t1 r1 = makeDropId t2 r2"
    by (simp add: makeDropId_def)
qed

lemma box_of_index_inj: "box_of_index a = box_of_index b \<longleftrightarrow> a = b"
  by (simp add: box_of_index_def string_of_nat_inj)

lemma box_of_small_index:
  "box_of_index 0 = ''box_0''" "box_of_index 1 = ''box_1''"
  "box_of_index 2 = ''box_2''" "box_of_index 3 = ''box_3''"
  by (simp_all add: box_of_index_def string_of_nat.simps digit_char_def)

section \<open>The claim checks\<close>

lemma truthy_claimed:
  "claimants_nonempty d \<Longrightarrow>
     truthy (map_of (collectedBy d) k) \<longleftrightarrow> k \<in> fst ` set (collectedBy d)"
  unfolding claimants_nonempty_def truthy_def
  by (auto split: option.splits simp: map_of_eq_None_iff dest!: map_of_SomeD intro: rev_image_eqI)

lemma truthy_unclaimed:
  "k \<notin> fst ` set (collectedBy d) \<Longrightarrow> \<not> truthy (map_of (collectedBy d) k)"
  unfolding truthy_def
  by (auto split: option.splits dest!: map_of_SomeD intro: rev_image_eqI)

lemma update_fresh: "k \<notin> fst ` set xs \<Longrightarrow> AList.update k v xs = xs @ [(k, v)]"
  by (induction xs) auto

text \<open>Recorded claimants stay non-empty: a new drop has none, and the handler records
  the id of the pressing member.\<close>

lemma new_drop_claimants_nonempty: "claimants_nonempty (new_drop env)"
  by (simp add: claimants_nonempty_def new_drop_def)

lemma set_alist_update: "set (AList.update k v xs) \<subseteq> insert (k, v) (set xs)"
  by (induction xs) auto

lemma update_claimants_nonempty:
  "claimants_nonempty d \<Longrightarrow> m \<noteq> [] \<Longrightarrow>
     claimants_nonempty (d\<lparr>collectedBy := AList.update k m (collectedBy d)\<rparr>)"
  using set_alist_update[of k m "collectedBy d"]
  by (auto simp: claimants_nonempty_def)

lemma collect_keeps_claimants_nonempty:
  assumes "\<forall>k d. activeDrops (mem st) k = Some d \<longrightarrow> claimants_nonempty d" and "m \<noteq> []"
  shows "\<forall>k d. activeDrops (mem (snd (collect now dropId boxIndex (Some m) env st))) k = Some d
           \<longrightarrow> claimants_nonempty d"
  using assms
  by (auto simp: collect_def Let_def saveStorage_def delete_drop_def mark_collected_def
        put_drop_def bump_count_def update_claimants_nonempty split: option.splits if_splits)

lemmas demo_defs =
  demo_id_def demo_drop_def demo_settings_def demo_storage_def demo_bot_def demo_troll_def

lemmas collect_defs =
  collect_def Let_def box_of_token_def truthy_def mark_collected_def put_drop_def
  delete_drop_def saveStorage_def bump_count_def tally_def snapshot_def troll_penalty_def

lemma demo_bot_claimed_eq:
  "demo_bot_claimed =
     \<lparr> mem = \<lparr> userCounts = [''A'' \<mapsto> 1],
               activeDrops = [demo_id \<mapsto> demo_drop\<lparr>collectedBy := [(''box_0'', ''A'')]\<rparr>],
               botSettings = Some demo_settings \<rparr>,
       disk = Json \<lparr> doc_userCounts = Present Map.empty,
                     doc_activeDrops =
                       Present [demo_id \<mapsto> demo_drop\<lparr>collectedBy := [(''box_0'', ''A'')]\<rparr>],
                     doc_botSettings = Present demo_settings \<rparr>,
       writable = True,
       timers = [VisibilityTimer demo_id 10000, ValidityTimer demo_id 172800000],
       posted = [(''m1'', demo_id)] \<rparr>"
  by (simp add: demo_bot_claimed_def demo_defs collect_defs)

text \<open>
  C1. For a claim attempt by a present member \<open>c\<close>, the button handler decides in this
  order: an id that is not in the active set gives \<open>DropNotFound\<close>; else a clock reading
  strictly after \<open>expiresAt\<close> gives \<open>DropExpired\<close> (and the drop is removed); else a box
  that is already a key of \<open>collectedBy\<close> gives \<open>SlotAlreadyClaimed\<close>; else a member who is
  a value anywhere in \<open>collectedBy\<close> gives \<open>MemberAlreadyClaimed\<close>; only otherwise is the
  pair (box, member) recorded, appended to \<open>collectedBy\<close>. The three rejections leave the
  state as it was. The handler tests the stored claimant for truthiness, which is the key
  test because recorded claimants are non-empty member ids.
\<close>

theorem collect_check_order:
  "(activeDrops (mem st) dropId = None \<longrightarrow>
      collect now dropId boxIndex (Some c) env st = (DropNotFound, st))
   \<and> (\<forall>d. activeDrops (mem st) dropId = Some d \<longrightarrow>
        (now > expiresAt d \<longrightarrow>
           fst (collect now dropId boxIndex (Some c) env st) = DropExpired
           \<and> activeDrops (mem (snd (collect now dropId boxIndex (Some c) env st))) dropId = None)
      \<and> (\<not> now > expiresAt d \<and> claimants_nonempty d
           \<and> box_of_token boxIndex \<in> fst ` set (collectedBy d) \<longrightarrow>
           collect now dropId boxIndex (Some c) env st = (SlotAlreadyClaimed, st))
      \<and> (\<not> now > expiresAt d \<and> box_of_token boxIndex \<notin> fst ` set (collectedBy d)
           \<and> c \<in> snd ` set (collectedBy d) \<longrightarrow>
           collect now dropId boxIndex (Some c) env st = (MemberAlreadyClaimed, st))
      \<and> (\<not> now > expiresAt d \<and> box_of_token boxIndex \<notin> fst ` set (collectedBy d)
           \<and> c \<notin> snd ` set (collectedBy d) \<longrightarrow>
           fst (collect now dropId boxIndex (Some c) env st) \<in> insert Prize (range Trollbox)
           \<and> activeDrops (mem (snd (collect now dropId boxIndex (Some c) env st))) dropId
               = Some (d\<lparr>collectedBy := collectedBy d @ [(box_of_token boxIndex, c)]\<rparr>)))"
  by (auto simp: collect_def Let_def truthy_claimed truthy_unclaimed update_fresh
        mark_collected_def put_drop_def delete_drop_def saveStorage_def bump_count_def)

theorem collect_check_order_witness:
  "collect 2000 ''drop_1_1'' ''0'' (Some ''A'') demo_troll demo_bot = (DropNotFound, demo_bot)
   \<and> fst (collect 172801001 demo_id ''0'' (Some ''A'') demo_troll demo_bot) = DropExpired
   \<and> collect 3000 demo_id ''0'' (Some ''B'') demo_troll demo_bot_claimed
       = (SlotAlreadyClaimed, demo_bot_claimed)
   \<and> collect 3000 demo_id ''1'' (Some ''A'') demo_troll demo_bot_claimed
       = (MemberAlreadyClaimed, demo_bot_claimed)
   \<and> activeDrops (mem (snd (collect 3000 demo_id ''1'' (Some ''B'') demo_troll demo_bot_claimed)))
        demo_id
       = Some (demo_drop\<lparr>collectedBy := [(''box_0'', ''A''), (''box_1'', ''B'')]\<rparr>)"
proof -
  let ?claimed = "demo_drop\<lparr>collectedBy := [(''box_0'', ''A'')]\<rparr>"
  have absent: "activeDrops (mem demo_bot) ''drop_1_1'' = None"
    by (simp add: demo_defs)
  have present: "activeDrops (mem demo_bot) demo_id = Some demo_drop"
    by (simp add: demo_defs)
  have present': "activeDrops (mem demo_bot_claimed) demo_id = Some ?claimed"
    by (simp add: demo_bot_claimed_eq)
  have ne: "claimants_nonempty ?claimed"
    by (simp add: claimants_nonempty_def demo_defs)
  have late: "172801001 > expiresAt demo_drop" and early: "\<not> 3000 > expiresAt ?claimed"
    by (simp_all add: demo_defs)
  have keys: "box_of_token ''0'' \<in> fst ` set (collectedBy ?claimed)"
             "box_of_token ''1'' \<notin> fst ` set (collectedBy ?claimed)"
    by (simp_all add: box_of_token_def demo_defs)
  have vals: "''A'' \<in> snd ` set (collectedBy ?claimed)" "''B'' \<notin> snd ` set (collectedBy ?claimed)"
    by (simp_all add: demo_defs)
  show ?thesis
    using collect_check_order[of demo_bot "''drop_1_1''" 2000 "''0''" "''A''" demo_troll] absent
      collect_check_order[of demo_bot demo_id 172801001 "''0''" "''A''" demo_troll] present late
      collect_check_order[of demo_bot_claimed demo_id 3000 "''0''" "''B''" demo_troll]
      collect_check_order[of demo_bot_claimed demo_id 3000 "''1''" "''A''" demo_troll]
      collect_check_order[of demo_bot_claimed demo_id 3000 "''1''" "''B''" demo_troll]
      present' ne early keys vals
    by (simp add: box_of_token_def demo_defs)
qed

text \<open>
  C10. A claim attempt that is answered \<open>DropNotFound\<close>, \<open>SlotAlreadyClaimed\<close> or
  \<open>MemberAlreadyClaimed\<close> leaves the whole state unchanged: memory, storage file, timers.
  An attempt answered \<open>DropExpired\<close> does change it: the drop is gone from the active set.
\<close>

theorem collect_rejection_keeps_state:
  "(fst (collect now dropId boxIndex member env st)
        \<in> {DropNotFound, SlotAlreadyClaimed, MemberAlreadyClaimed}
      \<longrightarrow> snd (collect now dropId boxIndex member env st) = st)
   \<and> (fst (collect now dropId boxIndex member env st) = DropExpired
      \<longrightarrow> activeDrops (mem st) dropId \<noteq> None
        \<and> activeDrops (mem (snd (collect now dropId boxIndex member env st))) dropId = None)"
  by (auto simp: collect_def Let_def delete_drop_def saveStorage_def
        split: option.splits if_splits)

theorem collect_rejection_keeps_state_witness:
  "snd (collect 3000 demo_id ''1'' (Some ''A'') demo_troll demo_bot_claimed) = demo_bot_claimed
   \<and> snd (collect 3000 demo_id ''0'' (Some ''B'') demo_troll demo_bot_claimed) = demo_bot_claimed
   \<and> snd (collect 3000 ''drop_1_1'' ''0'' (Some ''B'') demo_troll demo_bot_claimed) = demo_bot_claimed
   \<and> activeDrops (mem demo_bot) demo_id \<noteq> None
   \<and> activeDrops (mem (snd (collect 172801001 demo_id ''0'' (Some ''A'') demo_troll demo_bot))) demo_id
       = None"
proof -
  have a: "fst (collect 3000 demo_id ''1'' (Some ''A'') demo_troll demo_bot_claimed) = MemberAlreadyClaimed"
    by (simp add: demo_bot_claimed_eq demo_defs collect_defs)
  have b: "fst (collect 3000 demo_id ''0'' (Some ''B'') demo_troll demo_bot_claimed) = SlotAlreadyClaimed"
    by (simp add: demo_bot_claimed_eq demo_defs collect_defs)
  have c: "fst (collect 3000 ''drop_1_1'' ''0'' (Some ''B'') demo_troll demo_bot_claimed) = DropNotFound"
    by (simp add: demo_bot_claimed_eq demo_defs collect_defs)
  have e: "fst (collect 172801001 demo_id ''0'' (Some ''A'') demo_troll demo_bot) = DropExpired"
    by (simp add: demo_defs collect_defs)
  show ?thesis
    using collect_rejection_keeps_state[of 3000 demo_id "''1''" "Some ''A''" demo_troll demo_bot_claimed] a
      collect_rejection_keeps_state[of 3000 demo_id "''0''" "Some ''B''" demo_troll demo_bot_claimed] b
      collect_rejection_keeps_state[of 3000 "''drop_1_1''" "''0''" "Some ''B''" demo_troll demo_bot_claimed] c
      collect_rejection_keeps_state[of 172801001 demo_id "''0''" "Some ''A''" demo_troll demo_bot] e
    by simp
qed

section \<open>The shuffle\<close>

lemma draw_index_le: "unit_draw r \<Longrightarrow> nat \<lfloor>r * real (Suc i)\<rfloor> \<le> i"
proof -
  assume u: "unit_draw r"
  then have "r * real (Suc i) < real (Suc i)"
    unfolding unit_draw_def by (simp add: mult_less_cancel_right2)
  then have "\<lfloor>r * real (Suc i)\<rfloor> < int (Suc i)"
    by (simp add: floor_less_iff)
  then show ?thesis by linarith
qed

lemma shuffle_from_mset:
  "(\<forall>i\<in>{1..k}. unit_draw (draw i)) \<Longrightarrow> k < length idx \<Longrightarrow>
     mset (shuffle_from draw k idx) = mset idx"
proof (induction k arbitrary: idx)
  case 0
  then show ?case by simp
next
  case (Suc k)
  let ?j = "nat \<lfloor>draw (Suc k) * real (Suc k + 1)\<rfloor>"
  let ?swapped = "idx[Suc k := idx ! ?j, ?j := idx ! Suc k]"
  have "unit_draw (draw (Suc k))" using Suc.prems(1) by simp
  then have "?j \<le> Suc k" using draw_index_le[of "draw (Suc k)" "Suc k"] by simp
  then have jl: "?j < length idx" using Suc.prems(2) by simp
  have sw: "mset ?swapped = mset idx"
    using mset_swap[OF jl Suc.prems(2)] by simp
  have "mset (shuffle_from draw k ?swapped) = mset ?swapped"
    using Suc.prems by (intro Suc.IH) auto
  then show ?case using sw by (simp add: Let_def)
qed

lemma realIndices_unfold: "realIndices draw = take 2 (shuffle_from draw 3 [0, 1, 2, 3])"
  by (simp add: realIndices_def numeral_3_eq_3 del: shuffle_from.simps)

lemma shuffle_is_permutation:
  assumes "shuffle_draws_ok draw"
  shows "mset (shuffle_from draw 3 [0, 1, 2, 3]) = mset [0, 1, 2, 3]"
proof -
  have "\<forall>i\<in>{1..3}. unit_draw (draw i)"
  proof
    fix i :: nat assume "i \<in> {1..3}"
    then have "i = 1 \<or> i = 2 \<or> i = 3" by auto
    then show "unit_draw (draw i)" using assms by (auto simp: shuffle_draws_ok_def)
  qed
  then show ?thesis by (intro shuffle_from_mset) auto
qed

lemma realIndices_shape:
  assumes "shuffle_draws_ok draw"
  shows "\<exists>a b. realIndices draw = [a, b] \<and> a < 4 \<and> b < 4 \<and> a \<noteq> b"
proof -
  let ?p = "shuffle_from draw 3 [0, 1, 2, 3]"
  have m: "mset ?p = mset [0, 1, 2, 3::nat]"
    using assms by (rule shuffle_is_permutation)
  have len: "length ?p = 4" using mset_eq_length[OF m] by simp
  have d: "distinct ?p" using mset_eq_imp_distinct_iff[OF m] by simp
  have s: "set ?p = {0, 1, 2, 3}" using mset_eq_setD[OF m] by simp
  from len obtain a b c e where p: "?p = [a, b, c, e]"
    by (auto simp: length_Suc_conv numeral_eq_Suc)
  have "a \<noteq> b" using d p by simp
  moreover have "a \<in> set ?p" "b \<in> set ?p" unfolding p by simp_all
  then have "a < 4" "b < 4" unfolding s by auto
  moreover have "realIndices draw = [a, b]" unfolding realIndices_unfold p by simp
  ultimately show ?thesis by blast
qed

lemma draws_for_ok: "j3 < 4 \<Longrightarrow> j2 < 3 \<Longrightarrow> j1 < 2 \<Longrightarrow> shuffle_draws_ok (draws_for j3 j2 j1)"
  by (simp add: draws_for_def unit_draw_def shuffle_draws_ok_def)

lemma realIndices_examples:
  "realIndices (draws_for 3 2 1) = [0, 1]"
  "realIndices (draws_for 3 1 1) = [0, 2]"
  "realIndices (draws_for 1 2 1) = [0, 3]"
  "realIndices (draws_for 0 0 1) = [2, 1]"
  "realIndices (draws_for 0 2 1) = [3, 1]"
  "realIndices (draws_for 0 1 1) = [3, 2]"
  by (simp_all add: realIndices_def numeral_3_eq_3 draws_for_def)

lemma pair_cases:
  assumes "a < (4::nat)" "b < 4" "a \<noteq> b"
  obtains "{a, b} = {0, 1}" | "{a, b} = {0, 2}" | "{a, b} = {0, 3}"
        | "{a, b} = {2, 1}" | "{a, b} = {3, 1}" | "{a, b} = {3, 2}"
proof -
  have "a \<in> {0, 1, 2, 3}" "b \<in> {0, 1, 2, 3}" using assms by auto
  then show thesis using assms(3) that by (auto simp: insert_commute)
qed

lemma pair_reachable:
  assumes "a < (4::nat)" "b < 4" "a \<noteq> b"
  shows "\<exists>draw. shuffle_draws_ok draw \<and> set (realIndices draw) = {a, b}"
  using assms
proof (cases rule: pair_cases)
  case 1 then show ?thesis
    using realIndices_examples(1) draws_for_ok[of 3 2 1] by (intro exI[of _ "draws_for 3 2 1"]) simp
next
  case 2 then show ?thesis
    using realIndices_examples(2) draws_for_ok[of 3 1 1] by (intro exI[of _ "draws_for 3 1 1"]) simp
next
  case 3 then show ?thesis
    using realIndices_examples(3) draws_for_ok[of 1 2 1] by (intro exI[of _ "draws_for 1 2 1"]) simp
next
  case 4 then show ?thesis
    using realIndices_examples(4) draws_for_ok[of 0 0 1] by (intro exI[of _ "draws_for 0 0 1"]) simp
next
  case 5 then show ?thesis
    using realIndices_examples(5) draws_for_ok[of 0 2 1] by (intro exI[of _ "draws_for 0 2 1"]) simp
next
  case 6 then show ?thesis
    using realIndices_examples(6) draws_for_ok[of 0 1 1] by (intro exI[of _ "draws_for 0 1 1"]) simp
qed

lemma registered_drop:
  "activeDrops (mem (sendGiftDrop_register env st)) (env_drop_id env) = Some (new_drop env)"
  by (simp add: sendGiftDrop_register_def put_drop_def)

lemma steps_keep_validBoxes:
  "s \<in> set (sendGiftDrop_steps env channel res st) \<Longrightarrow>
     \<exists>d. activeDrops (mem s) (env_drop_id env) = Some d \<and> validBoxes d = validBoxes (new_drop env)"
  by (auto simp: sendGiftDrop_steps_def Let_def sendGiftDrop_register_def put_drop_def
        sendGiftDrop_shown_def sendGiftDrop_record_def sendGiftDrop_arm_def saveStorage_def
        split: send_result.splits option.splits if_splits)

text \<open>
  C2. When the three shuffle draws are in \<open>[0, 1)\<close>, the drop that \<open>sendGiftDrop\<close>
  registers has exactly two winning boxes, \<open>box_a\<close> and \<open>box_b\<close> for two different
  indices below 4. They are the first two entries of the Fisher-Yates shuffle of
  \<open>[0, 1, 2, 3]\<close>, which is a permutation of that list, so no other number of winners can
  occur; and each of the six pairs is the outcome of some draws.
\<close>

theorem winning_slots_two_of_four:
  "(shuffle_draws_ok (rnd_shuffle env) \<longrightarrow>
      activeDrops (mem (sendGiftDrop_register env st)) (env_drop_id env) = Some (new_drop env)
      \<and> validBoxes (new_drop env)
           = map box_of_index (take 2 (shuffle_from (rnd_shuffle env) 3 [0, 1, 2, 3]))
      \<and> mset (shuffle_from (rnd_shuffle env) 3 [0, 1, 2, 3]) = mset [0, 1, 2, 3]
      \<and> (\<exists>a b. a < 4 \<and> b < 4 \<and> a \<noteq> b
            \<and> validBoxes (new_drop env) = [box_of_index a, box_of_index b])
      \<and> card (set (validBoxes (new_drop env))) = 2
      \<and> set (validBoxes (new_drop env)) \<subseteq> box_of_index ` {0, 1, 2, 3})
   \<and> (\<forall>a b. a < 4 \<and> b < 4 \<and> a \<noteq> b \<longrightarrow>
        (\<exists>env'. shuffle_draws_ok (rnd_shuffle env')
            \<and> set (validBoxes (new_drop env')) = {box_of_index a, box_of_index b}))"
proof (intro conjI impI allI)
  assume ok: "shuffle_draws_ok (rnd_shuffle env)"
  show "activeDrops (mem (sendGiftDrop_register env st)) (env_drop_id env) = Some (new_drop env)"
    by (rule registered_drop)
  show vb: "validBoxes (new_drop env)
      = map box_of_index (take 2 (shuffle_from (rnd_shuffle env) 3 [0, 1, 2, 3]))"
    by (simp add: new_drop_def realIndices_unfold)
  show "mset (shuffle_from (rnd_shuffle env) 3 [0, 1, 2, 3]) = mset [0, 1, 2, 3]"
    using ok by (rule shuffle_is_permutation)
  from realIndices_shape[OF ok] obtain a b
    where ab: "realIndices (rnd_shuffle env) = [a, b]" "a < 4" "b < 4" "a \<noteq> b" by blast
  then have two: "validBoxes (new_drop env) = [box_of_index a, box_of_index b]"
    by (simp add: new_drop_def)
  then show "\<exists>a b. a < 4 \<and> b < 4 \<and> a \<noteq> b
      \<and> validBoxes (new_drop env) = [box_of_index a, box_of_index b]"
    using ab by blast
  show "card (set (validBoxes (new_drop env))) = 2"
    using two ab(4) by (simp add: box_of_index_inj)
  have "a \<in> {0, 1, 2, 3}" "b \<in> {0, 1, 2, 3}" using ab(2,3) by auto
  then show "set (validBoxes (new_drop env)) \<subseteq> box_of_index ` {0, 1, 2, 3}"
    unfolding two by auto
next
  fix a b :: nat
  assume "a < 4 \<and> b < 4 \<and> a \<noteq> b"
  then obtain draw where d: "shuffle_draws_ok draw" "set (realIndices draw) = {a, b}"
    using pair_reachable[of a b] by blast
  let ?env = "demo_env\<lparr>rnd_shuffle := draw\<rparr>"
  have "set (validBoxes (new_drop ?env)) = box_of_index ` set (realIndices draw)"
    by (simp add: new_drop_def)
  then have "set (validBoxes (new_drop ?env)) = {box_of_index a, box_of_index b}"
    using d(2) by simp
  then show "\<exists>env'. shuffle_draws_ok (rnd_shuffle env')
      \<and> set (validBoxes (new_drop env')) = {box_of_index a, box_of_index b}"
    using d(1) by (intro exI[of _ ?env]) simp
qed

theorem winning_slots_two_of_four_witness:
  "shuffle_draws_ok (rnd_shuffle demo_env)
   \<and> activeDrops (mem (sendGiftDrop_register demo_env fresh_bot)) (env_drop_id demo_env)
       = Some (new_drop demo_env)
   \<and> validBoxes (new_drop demo_env) = [''box_0'', ''box_3'']
   \<and> card (set (validBoxes (new_drop demo_env))) = 2
   \<and> (1::nat) < 4 \<and> (2::nat) < 4 \<and> (1::nat) \<noteq> 2
   \<and> (\<exists>env'. shuffle_draws_ok (rnd_shuffle env')
         \<and> set (validBoxes (new_drop env')) = {''box_1'', ''box_2''})"
proof -
  have ok: "shuffle_draws_ok (rnd_shuffle demo_env)"
    by (simp add: shuffle_draws_ok_def unit_draw_def demo_env_def)
  have ri: "realIndices (rnd_shuffle demo_env) = [0, 3]"
    by (simp add: realIndices_def numeral_3_eq_3 demo_env_def)
  have vb: "validBoxes (new_drop demo_env) = [''box_0'', ''box_3'']"
    by (simp add: new_drop_def ri box_of_small_index)
  note t = winning_slots_two_of_four[of demo_env fresh_bot]
  have r: "activeDrops (mem (sendGiftDrop_register demo_env fresh_bot)) (env_drop_id demo_env)
       = Some (new_drop demo_env)"
    using t ok by blast
  have c: "card (set (validBoxes (new_drop demo_env))) = 2"
    using t ok by blast
  have every: "\<And>a b. a < 4 \<Longrightarrow> b < 4 \<Longrightarrow> a \<noteq> b \<Longrightarrow>
      \<exists>env'. shuffle_draws_ok (rnd_shuffle env')
         \<and> set (validBoxes (new_drop env')) = {box_of_index a, box_of_index b}"
    using t by blast
  have ex: "\<exists>env'. shuffle_draws_ok (rnd_shuffle env')
         \<and> set (validBoxes (new_drop env')) = {box_of_index 1, box_of_index 2}"
    by (rule every) simp_all
  show ?thesis
    using ok r vb c ex[unfolded box_of_small_index] by simp
qed

text \<open>
  C9, as stated, does not hold: two runs in the same millisecond whose draws agree in the
  first four decimals build the same id.
\<close>

theorem drop_ids_collide:
  "clash_env_a \<noteq> clash_env_b
   \<and> unit_draw (rnd_id clash_env_a) \<and> unit_draw (rnd_id clash_env_b)
   \<and> rnd_id clash_env_a \<noteq> rnd_id clash_env_b
   \<and> env_drop_id clash_env_a = ''drop_1700000000000_5000''
   \<and> env_drop_id clash_env_b = ''drop_1700000000000_5000''"
proof -
  have "rnd_id clash_env_a \<noteq> rnd_id clash_env_b"
    by (simp add: clash_env_a_def clash_env_b_def)
  then have "clash_env_a \<noteq> clash_env_b" by auto
  then show ?thesis
    by (simp add: clash_env_a_def clash_env_b_def env_drop_id_def unit_draw_def makeDropId_def
          string_of_nat.simps digit_char_def)
qed

text \<open>
  C9, amended. Two runs of \<open>sendGiftDrop\<close> build the same drop id exactly when they read
  the same clock millisecond and their draws give the same suffix
  \<^verbatim>\<open>Math.floor(Math.random() * 10000)\<close>; runs in different milliseconds, or with different
  suffixes, get different ids.
\<close>

theorem drop_ids_equal_iff:
  "(env_drop_id e1 = env_drop_id e2) =
     (now_id e1 = now_id e2 \<and> nat \<lfloor>rnd_id e1 * 10000\<rfloor> = nat \<lfloor>rnd_id e2 * 10000\<rfloor>)"
  by (simp add: env_drop_id_def makeDropId_eq_iff)

section \<open>Prizes and troll boxes\<close>

lemma collect_prize_effect:
  assumes "collect now dropId boxIndex (Some m) env st = (Prize, st')"
  shows "\<exists>d. activeDrops (mem st) dropId = Some d
           \<and> box_of_token boxIndex \<in> set (validBoxes d)
           \<and> tally (mem st') m = tally (mem st) m + 1
           \<and> (\<forall>m'. m' \<noteq> m \<longrightarrow> userCounts (mem st') m' = userCounts (mem st) m')
           \<and> (writable st \<longrightarrow> disk_count st' m = userCounts (mem st) m)"
  using assms
  by (auto simp: collect_def Let_def bump_count_def tally_def saveStorage_def mark_collected_def
        put_drop_def disk_count_def snapshot_def split: option.splits if_splits)

lemma collect_trollbox_effect:
  assumes "collect now dropId boxIndex (Some m) env st = (Trollbox p, st')"
  shows "\<exists>d. activeDrops (mem st) dropId = Some d
           \<and> box_of_token boxIndex \<notin> set (validBoxes d)
           \<and> p = troll_penalty env
           \<and> userCounts (mem st') = userCounts (mem st)"
  using assms
  by (auto simp: collect_def Let_def bump_count_def saveStorage_def mark_collected_def
        put_drop_def split: option.splits if_splits)

lemma disk_count_saved:
  "disk st = Json (snapshot (mem st)) \<Longrightarrow> disk_count st m = userCounts (mem st) m"
  by (simp add: disk_count_def snapshot_def)

text \<open>
  C3, evaluated where the code departs from it. Member \<open>A\<close> takes the winning box 0 of the
  demo drop; the storage file was in step with memory and is writable. The answer is
  \<open>Prize\<close> and the count of \<open>A\<close> in memory goes from nothing to 1, but the storage file,
  written just before the count was raised, holds the claim and no count for \<open>A\<close>: the
  handler does not call \<open>saveStorage\<close> after the increment.
\<close>

theorem prize_count_not_saved:
  "writable demo_bot
   \<and> disk demo_bot = Json (snapshot (mem demo_bot))
   \<and> fst (collect 2000 demo_id ''0'' (Some ''A'') demo_troll demo_bot) = Prize
   \<and> userCounts (mem demo_bot) ''A'' = None
   \<and> userCounts (mem (snd (collect 2000 demo_id ''0'' (Some ''A'') demo_troll demo_bot))) ''A'' = Some 1
   \<and> disk_count (snd (collect 2000 demo_id ''0'' (Some ''A'') demo_troll demo_bot)) ''A'' = None
   \<and> disk_drop (snd (collect 2000 demo_id ''0'' (Some ''A'') demo_troll demo_bot)) demo_id
       = Some (demo_drop\<lparr>collectedBy := [(''box_0'', ''A'')]\<rparr>)
   \<and> disk (snd (collect 2000 demo_id ''0'' (Some ''A'') demo_troll demo_bot))
       \<noteq> Json (snapshot (mem (snd (collect 2000 demo_id ''0'' (Some ''A'') demo_troll demo_bot))))"
proof -
  have o: "fst (collect 2000 demo_id ''0'' (Some ''A'') demo_troll demo_bot) = Prize"
    by (simp add: demo_defs collect_defs)
  have s: "snd (collect 2000 demo_id ''0'' (Some ''A'') demo_troll demo_bot) = demo_bot_claimed"
    by (simp add: demo_bot_claimed_def)
  have d: "disk demo_bot_claimed \<noteq> Json (snapshot (mem demo_bot_claimed))"
  proof
    assume "disk demo_bot_claimed = Json (snapshot (mem demo_bot_claimed))"
    then have "disk_count demo_bot_claimed ''A'' = userCounts (mem demo_bot_claimed) ''A''"
      by (rule disk_count_saved)
    then show False by (simp add: demo_bot_claimed_eq disk_count_def)
  qed
  show ?thesis
    unfolding s using o d
    by (simp add: demo_bot_claimed_eq disk_count_def disk_drop_def) (simp add: demo_defs snapshot_def)
qed

section \<open>Removed drops\<close>

lemmas send_defs =
  sendGiftDrop_steps_def sendGiftDrop_register_def sendGiftDrop_shown_def
  sendGiftDrop_record_def sendGiftDrop_arm_def put_drop_def saveStorage_def Let_def

lemma demo_env_id: "env_drop_id demo_env = ''drop_1000_5000''"
  by (simp add: env_drop_id_def demo_env_def makeDropId_def string_of_nat.simps digit_char_def)

lemma collect_absent:
  "activeDrops (mem st) dropId = None \<Longrightarrow>
     collect now dropId boxIndex member env st = (DropNotFound, st)"
  by (simp add: collect_def)

lemma collect_keeps_absent:
  "activeDrops (mem st) dropId = None \<Longrightarrow>
     activeDrops (mem (snd (collect now other boxIndex member env st))) dropId = None"
  by (auto simp: collect_def Let_def saveStorage_def delete_drop_def mark_collected_def
        put_drop_def bump_count_def split: option.splits)

lemma expire_if_active_absent: "activeDrops (mem (expire_if_active dropId st)) dropId = None"
  by (simp add: expire_if_active_def saveStorage_def delete_drop_def)

lemma expire_if_active_keeps_absent:
  "activeDrops (mem st) dropId = None \<Longrightarrow>
     activeDrops (mem (expire_if_active other st)) dropId = None"
  by (simp add: expire_if_active_def saveStorage_def delete_drop_def)

lemma sendGiftDrop_keeps_absent:
  "activeDrops (mem st) dropId = None \<Longrightarrow> dropId \<noteq> env_drop_id env \<Longrightarrow>
     activeDrops (mem (sendGiftDrop env channel res st)) dropId = None"
  by (auto simp: sendGiftDrop_def sendGiftDrop_steps_def Let_def sendGiftDrop_register_def
        put_drop_def sendGiftDrop_shown_def sendGiftDrop_record_def sendGiftDrop_arm_def
        saveStorage_def split: send_result.splits option.splits)

lemma auto_drop_loop_keeps_absent:
  "activeDrops (mem st) dropId = None \<Longrightarrow> dropId \<notin> set (concat (map visit_ids gs)) \<Longrightarrow>
     activeDrops (mem (snd (auto_drop_loop gs st))) dropId = None"
proof (induction gs st rule: auto_drop_loop.induct)
  case (5 env channel res gs st)
  then show ?case by (simp add: sendGiftDrop_keeps_absent)
qed simp_all

lemma scheduler_fire_keeps_absent:
  "activeDrops (mem st) dropId = None \<Longrightarrow> dropId \<notin> set (concat (map visit_ids gs)) \<Longrightarrow>
     activeDrops (mem (scheduler_fire delay gs r st)) dropId = None"
proof -
  assume a: "activeDrops (mem st) dropId = None" and f: "dropId \<notin> set (concat (map visit_ids gs))"
  let ?st0 = "st\<lparr>timers := remove1 (SchedulerTimer delay) (timers st)\<rparr>"
  have "activeDrops (mem ?st0) dropId = None" using a by simp
  then have "activeDrops (mem (snd (auto_drop_loop gs ?st0))) dropId = None"
    using f by (rule auto_drop_loop_keeps_absent)
  then have "activeDrops (mem (snd (auto_drop_attempt gs ?st0))) dropId = None"
    using a by (simp add: auto_drop_attempt_def split: option.splits)
  then show ?thesis
    by (cases "auto_drop_attempt gs ?st0") (simp add: scheduler_fire_def Let_def scheduleNextDrop_def)
qed

lemma loadStorage_activeDrops_kept:
  "disk st = NoFile \<or> disk st = Unparseable \<Longrightarrow>
     activeDrops (mem (loadStorage st)) = activeDrops (mem st)"
  by (auto simp: loadStorage_def saveStorage_def)

lemma step_keeps_absent:
  "activeDrops (mem st) dropId = None \<Longrightarrow> dropId \<notin> set (created_ids e) \<Longrightarrow> \<not> reloads e \<Longrightarrow>
     activeDrops (mem (step OWNER_ID e st)) dropId = None"
proof (cases e)
  case (Collect now other boxIndex member env)
  assume "activeDrops (mem st) dropId = None"
  then show ?thesis using Collect by (simp add: collect_keeps_absent)
next
  case (FireVisibility other delay)
  assume "activeDrops (mem st) dropId = None"
  then show ?thesis using FireVisibility
    by (simp add: visibility_fire_def expire_if_active_keeps_absent)
next
  case (FireValidity other delay)
  assume "activeDrops (mem st) dropId = None"
  then show ?thesis using FireValidity
    by (simp add: validity_fire_def expire_if_active_keeps_absent)
next
  case (FireScheduler delay gs r)
  assume "activeDrops (mem st) dropId = None" "dropId \<notin> set (created_ids e)"
  then show ?thesis using FireScheduler by (simp add: scheduler_fire_keeps_absent)
next
  case (SendDrop env channel res)
  assume "activeDrops (mem st) dropId = None" "dropId \<notin> set (created_ids e)"
  then show ?thesis using SendDrop by (simp add: sendGiftDrop_keeps_absent)
next
  case (SetDropChannel uid channel)
  assume "activeDrops (mem st) dropId = None"
  then show ?thesis using SetDropChannel
    by (simp add: set_drop_channel_def saveStorage_def put_settings_def split: option.splits)
next
  case (ToggleAuto uid)
  assume "activeDrops (mem st) dropId = None"
  then show ?thesis using ToggleAuto
    by (simp add: toggle_auto_def Let_def saveStorage_def put_settings_def)
next
  case (ResetCounts uid)
  assume "activeDrops (mem st) dropId = None"
  then show ?thesis using ResetCounts
    by (simp add: reset_counts_def saveStorage_def)
next
  case (Restart envv)
  assume "\<not> reloads e"
  then show ?thesis using Restart by simp
next
  case (Ready r)
  assume "\<not> reloads e"
  then show ?thesis using Ready by simp
qed

lemma run_keeps_absent:
  "activeDrops (mem st) dropId = None \<Longrightarrow> dropId \<notin> set (concat (map created_ids es)) \<Longrightarrow>
     \<forall>e\<in>set es. \<not> reloads e \<Longrightarrow>
     activeDrops (mem (run OWNER_ID es st)) dropId = None"
proof (induction es arbitrary: st)
  case Nil
  then show ?case by simp
next
  case (Cons e es)
  then have "activeDrops (mem (step OWNER_ID e st)) dropId = None"
    by (intro step_keeps_absent) auto
  then show ?case using Cons by simp
qed

text \<open>With the entry gone from the storage file as well, reloading does not bring it back.\<close>

lemma saveStorage_keeps_gone: "gone dropId st \<Longrightarrow> gone dropId (saveStorage st)"
  by (simp add: gone_def saveStorage_def disk_drop_def snapshot_def)

lemma timers_keep_gone: "gone dropId (st\<lparr>timers := ts\<rparr>) = gone dropId st"
  by (simp add: gone_def disk_drop_def)

lemma loadStorage_keeps_gone: "gone dropId st \<Longrightarrow> gone dropId (loadStorage st)"
  by (auto simp: gone_def loadStorage_def saveStorage_def disk_drop_def snapshot_def
        assign_field_def js_or_default_def Let_def
        split: disk_file.splits jfield.splits)

lemma restart_keeps_gone:
  "gone dropId st \<Longrightarrow> gone dropId (loadStorage (st\<lparr>mem := initial_storage envv, timers := []\<rparr>))"
proof -
  assume "gone dropId st"
  then have "gone dropId (st\<lparr>mem := initial_storage envv, timers := []\<rparr>)"
    by (simp add: gone_def disk_drop_def initial_storage_def)
  then show ?thesis by (rule loadStorage_keeps_gone)
qed

lemma ready_keeps_gone:
  "gone dropId st \<Longrightarrow> gone dropId (case ready r st of None \<Rightarrow> loadStorage st | Some st' \<Rightarrow> st')"
proof -
  assume "gone dropId st"
  then have l: "gone dropId (loadStorage st)" by (rule loadStorage_keeps_gone)
  then have "gone dropId (scheduleNextDrop r (loadStorage st))"
    by (simp add: scheduleNextDrop_def timers_keep_gone)
  then show ?thesis using l
    by (simp add: ready_def Let_def split: option.splits)
qed

lemma put_other_keeps_gone:
  "gone dropId st \<Longrightarrow> dropId \<noteq> other \<Longrightarrow> gone dropId (put_drop other d st)"
  by (simp add: gone_def put_drop_def disk_drop_def)

lemma delete_keeps_gone: "gone dropId st \<Longrightarrow> gone dropId (delete_drop other st)"
  by (simp add: gone_def delete_drop_def disk_drop_def)

lemma bump_keeps_gone: "gone dropId (bump_count m st) = gone dropId st"
  by (simp add: gone_def bump_count_def disk_drop_def)

lemma collect_keeps_gone:
  assumes "gone dropId st"
  shows "gone dropId (snd (collect now other boxIndex member env st))"
proof (cases "activeDrops (mem st) other")
  case None
  then show ?thesis using assms by (simp add: collect_def)
next
  case (Some d)
  then have ne: "dropId \<noteq> other" using assms by (auto simp: gone_def)
  have del: "gone dropId (saveStorage (delete_drop other st))"
    using assms by (intro saveStorage_keeps_gone delete_keeps_gone)
  have mark: "\<And>m. gone dropId (saveStorage (mark_collected other d (box_of_token boxIndex) m st))"
    unfolding mark_collected_def using assms ne
    by (intro saveStorage_keeps_gone put_other_keeps_gone)
  show ?thesis using Some assms del mark
    by (simp add: collect_def Let_def bump_keeps_gone split: option.splits)
qed

lemma expire_if_active_keeps_gone:
  "gone dropId st \<Longrightarrow> gone dropId (expire_if_active other st)"
  by (simp add: expire_if_active_def saveStorage_keeps_gone delete_keeps_gone)

lemma sendGiftDrop_keeps_gone:
  assumes "gone dropId st" "dropId \<noteq> env_drop_id env"
  shows "gone dropId (sendGiftDrop env channel res st)"
proof -
  have r: "gone dropId (sendGiftDrop_register env st)"
    unfolding sendGiftDrop_register_def using assms by (rule put_other_keeps_gone)
  have s: "\<And>sentId. gone dropId (sendGiftDrop_shown env sentId (sendGiftDrop_register env st))"
    using r by (simp add: sendGiftDrop_shown_def gone_def disk_drop_def)
  have w: "\<And>sentId st3. sendGiftDrop_record env channel sentId
              (sendGiftDrop_shown env sentId (sendGiftDrop_register env st)) = Some st3
            \<Longrightarrow> gone dropId (sendGiftDrop_arm env st3)"
  proof -
    fix sentId st3
    assume "sendGiftDrop_record env channel sentId
              (sendGiftDrop_shown env sentId (sendGiftDrop_register env st)) = Some st3"
    then obtain d where "st3 = saveStorage (put_drop (env_drop_id env) d
              (sendGiftDrop_shown env sentId (sendGiftDrop_register env st)))"
      by (auto simp: sendGiftDrop_record_def split: option.splits)
    then have "gone dropId st3"
      using s assms(2) by (simp add: saveStorage_keeps_gone put_other_keeps_gone)
    then show "gone dropId (sendGiftDrop_arm env st3)"
      by (simp add: sendGiftDrop_arm_def timers_keep_gone)
  qed
  show ?thesis using r s w
    by (simp add: sendGiftDrop_def sendGiftDrop_steps_def Let_def
          split: send_result.splits option.splits)
qed

lemma auto_drop_loop_keeps_gone:
  "gone dropId st \<Longrightarrow> dropId \<notin> set (concat (map visit_ids gs)) \<Longrightarrow>
     gone dropId (snd (auto_drop_loop gs st))"
proof (induction gs st rule: auto_drop_loop.induct)
  case (5 env channel res gs st)
  then show ?case by (simp add: sendGiftDrop_keeps_gone)
qed simp_all

lemma scheduler_fire_keeps_gone:
  assumes "gone dropId st" "dropId \<notin> set (concat (map visit_ids gs))"
  shows "gone dropId (scheduler_fire delay gs r st)"
proof -
  let ?st0 = "st\<lparr>timers := remove1 (SchedulerTimer delay) (timers st)\<rparr>"
  have g0: "gone dropId ?st0" using assms(1) by (simp add: timers_keep_gone)
  then have "gone dropId (snd (auto_drop_loop gs ?st0))"
    using assms(2) by (rule auto_drop_loop_keeps_gone)
  then have "gone dropId (snd (auto_drop_attempt gs ?st0))"
    using g0 by (simp add: auto_drop_attempt_def split: option.splits)
  then show ?thesis
    by (cases "auto_drop_attempt gs ?st0")
       (simp add: scheduler_fire_def Let_def scheduleNextDrop_def timers_keep_gone)
qed

lemma settings_keep_gone: "gone dropId (put_settings b st) = gone dropId st"
  by (simp add: gone_def put_settings_def disk_drop_def)

lemma step_keeps_gone:
  assumes "gone dropId st" "dropId \<notin> set (created_ids e)"
  shows "gone dropId (step OWNER_ID e st)"
proof (cases e)
  case (Collect now other boxIndex member env)
  then show ?thesis using assms by (simp add: collect_keeps_gone)
next
  case (FireVisibility other delay)
  then show ?thesis using assms
    by (simp add: visibility_fire_def expire_if_active_keeps_gone timers_keep_gone)
next
  case (FireValidity other delay)
  then show ?thesis using assms
    by (simp add: validity_fire_def expire_if_active_keeps_gone timers_keep_gone)
next
  case (FireScheduler delay gs r)
  then show ?thesis using assms by (simp add: scheduler_fire_keeps_gone)
next
  case (SendDrop env channel res)
  then show ?thesis using assms by (simp add: sendGiftDrop_keeps_gone)
next
  case (SetDropChannel uid channel)
  then show ?thesis using assms
    by (simp add: set_drop_channel_def saveStorage_keeps_gone settings_keep_gone
          split: option.splits)
next
  case (ToggleAuto uid)
  then show ?thesis using assms
    by (simp add: toggle_auto_def Let_def saveStorage_keeps_gone settings_keep_gone)
next
  case (ResetCounts uid)
  have "gone dropId (st\<lparr>mem := (mem st)\<lparr>userCounts := Map.empty\<rparr>\<rparr>)"
    using assms(1) by (simp add: gone_def disk_drop_def)
  then show ?thesis using ResetCounts assms(1)
    by (simp add: reset_counts_def saveStorage_keeps_gone)
next
  case (Restart envv)
  then show ?thesis using assms(1) by (simp add: restart_keeps_gone)
next
  case (Ready r)
  then show ?thesis using assms(1) by (simp add: ready_keeps_gone)
qed

lemma run_keeps_gone:
  "gone dropId st \<Longrightarrow> dropId \<notin> set (concat (map created_ids es)) \<Longrightarrow>
     gone dropId (run OWNER_ID es st)"
proof (induction es arbitrary: st)
  case Nil
  then show ?case by simp
next
  case (Cons e es)
  then have "gone dropId (step OWNER_ID e st)"
    by (intro step_keeps_gone) auto
  then show ?case using Cons by simp
qed

lemma removes_absent: "removes dropId st st1 \<Longrightarrow> activeDrops (mem st1) dropId = None"
  unfolding removes_def
  by (auto simp: visibility_fire_def validity_fire_def expire_if_active_absent collect_def
        Let_def saveStorage_def delete_drop_def split: option.splits if_splits)

lemma removes_reaches_file:
  "writable st \<Longrightarrow> activeDrops (mem st) dropId \<noteq> None \<Longrightarrow> removes dropId st st1 \<Longrightarrow>
     \<not> on_disk dropId st1"
  unfolding removes_def
  by (auto simp: visibility_fire_def validity_fire_def expire_if_active_def collect_def
        Let_def saveStorage_def delete_drop_def on_disk_def disk_drop_def snapshot_def
        split: option.splits if_splits)

text \<open>
  C4, as stated, does not hold. The visibility timer removes the demo drop. A later
  \<open>sendGiftDrop\<close> run that builds the same id registers a drop under it, and a press for
  that id is then answered \<open>Prize\<close> and recorded. And when the save of the removal fails,
  the storage file still holds the drop: a restart loads it back, and a press for it is
  answered \<open>Prize\<close> and recorded.
\<close>

theorem removed_id_claimed_again:
  "activeDrops (mem demo_bot) demo_id = Some demo_drop
   \<and> activeDrops (mem (visibility_fire demo_id 10000 demo_bot)) demo_id = None
   \<and> env_drop_id reuse_env = demo_id
   \<and> fst (collect 3000 demo_id ''0'' (Some ''B'') demo_troll
            (sendGiftDrop reuse_env ''c1'' (Sent ''m2'') (visibility_fire demo_id 10000 demo_bot)))
       = Prize
   \<and> map_option collectedBy
        (activeDrops (mem (snd (collect 3000 demo_id ''0'' (Some ''B'') demo_troll
            (sendGiftDrop reuse_env ''c1'' (Sent ''m2'') (visibility_fire demo_id 10000 demo_bot)))))
           demo_id)
       = Some [(''box_0'', ''B'')]
   \<and> activeDrops (mem (visibility_fire demo_id 10000 unwritable_bot)) demo_id = None
   \<and> fst (collect 3000 demo_id ''0'' (Some ''B'') demo_troll
            (step ''owner'' (Restart None) (visibility_fire demo_id 10000 unwritable_bot)))
       = Prize
   \<and> map_option collectedBy
        (activeDrops (mem (snd (collect 3000 demo_id ''0'' (Some ''B'') demo_troll
            (step ''owner'' (Restart None) (visibility_fire demo_id 10000 unwritable_bot)))))
           demo_id)
       = Some [(''box_0'', ''B'')]"
proof -
  have id: "env_drop_id reuse_env = demo_id"
    by (simp add: reuse_env_def demo_env_def env_drop_id_def makeDropId_def demo_id_def
          string_of_nat.simps digit_char_def)
  have ri: "realIndices (rnd_shuffle reuse_env) = [0, 3]"
    by (simp add: realIndices_def numeral_3_eq_3 reuse_env_def demo_env_def)
  have nd: "new_drop reuse_env =
      \<lparr> createdAt = 1000, expiresAt = 172801000, validBoxes = [''box_0'', ''box_3''],
        collectedBy = [], messageId = None, channelId = None \<rparr>"
    by (simp add: new_drop_def ri box_of_small_index DROP_EXPIRE_HOURS_def)
       (simp add: reuse_env_def demo_env_def)
  have v: "visibility_fire demo_id 10000 demo_bot =
      demo_bot\<lparr>mem := (mem demo_bot)\<lparr>activeDrops := Map.empty\<rparr>,
               disk := Json (snapshot ((mem demo_bot)\<lparr>activeDrops := Map.empty\<rparr>)),
               timers := [ValidityTimer demo_id 172800000]\<rparr>"
    by (simp add: visibility_fire_def expire_if_active_def saveStorage_def delete_drop_def demo_defs)
  have u: "visibility_fire demo_id 10000 unwritable_bot =
      unwritable_bot\<lparr>mem := (mem demo_bot)\<lparr>activeDrops := Map.empty\<rparr>,
               timers := [ValidityTimer demo_id 172800000]\<rparr>"
    by (simp add: visibility_fire_def expire_if_active_def saveStorage_def delete_drop_def
          unwritable_bot_def demo_defs)
  have a: "activeDrops (mem (sendGiftDrop reuse_env ''c1'' (Sent ''m2'')
              (visibility_fire demo_id 10000 demo_bot))) demo_id
      = Some ((new_drop reuse_env)\<lparr>messageId := Some ''m2'', channelId := Some ''c1''\<rparr>)"
    unfolding v
    by (simp add: sendGiftDrop_def send_defs id)
  have b: "activeDrops (mem (step ''owner'' (Restart None)
              (visibility_fire demo_id 10000 unwritable_bot))) demo_id = Some demo_drop"
    unfolding u
    by (simp add: loadStorage_def unwritable_bot_def demo_bot_def snapshot_def assign_field_def
          js_or_default_def js_or_def Let_def)
       (simp add: demo_storage_def)
  show ?thesis
    using id a b
    by (simp add: v u collect_def Let_def nd box_of_token_def truthy_def mark_collected_def
          put_drop_def saveStorage_def bump_count_def)
       (simp add: demo_defs unwritable_bot_def)
qed

text \<open>
  C4, amended. Once a drop has left the active set, by its visibility timer, its validity
  timer or the expiry check of the button handler, it stays out through any later work
  that does not register a new drop under the same id, provided the removal reached the
  storage file or the later work does not reload the file; every later button press for
  it is then answered \<open>DropNotFound\<close> with the state unchanged. The removal reaches the
  file whenever the file is writable. A press at a clock reading after \<open>expiresAt\<close> is
  answered \<open>DropExpired\<close> and is such a removal.
\<close>

theorem removed_drop_never_claimed:
  "(removes dropId st st1
      \<and> dropId \<notin> set (concat (map created_ids es))
      \<and> (\<not> on_disk dropId st1 \<or> (\<forall>e\<in>set es. \<not> reloads e)) \<longrightarrow>
      activeDrops (mem st1) dropId = None
      \<and> activeDrops (mem (run OWNER_ID es st1)) dropId = None
      \<and> collect now dropId boxIndex member env (run OWNER_ID es st1)
           = (DropNotFound, run OWNER_ID es st1))
   \<and> (writable st \<and> activeDrops (mem st) dropId \<noteq> None \<and> removes dropId st st1 \<longrightarrow>
        \<not> on_disk dropId st1)
   \<and> (\<forall>d. activeDrops (mem st) dropId = Some d \<and> now > expiresAt d \<longrightarrow>
        fst (collect now dropId boxIndex member env st) = DropExpired
        \<and> removes dropId st (snd (collect now dropId boxIndex member env st)))"
proof (intro conjI impI allI)
  assume a: "removes dropId st st1
      \<and> dropId \<notin> set (concat (map created_ids es))
      \<and> (\<not> on_disk dropId st1 \<or> (\<forall>e\<in>set es. \<not> reloads e))"
  then show absent: "activeDrops (mem st1) dropId = None"
    using removes_absent by blast
  from a have fresh: "dropId \<notin> set (concat (map created_ids es))" by blast
  show later: "activeDrops (mem (run OWNER_ID es st1)) dropId = None"
  proof (cases "on_disk dropId st1")
    case False
    then have "gone dropId st1" using absent by (simp add: gone_def on_disk_def)
    then have "gone dropId (run OWNER_ID es st1)" using fresh by (rule run_keeps_gone)
    then show ?thesis by (simp add: gone_def)
  next
    case True
    then have "\<forall>e\<in>set es. \<not> reloads e" using a by blast
    with absent fresh show ?thesis by (rule run_keeps_absent)
  qed
  then show "collect now dropId boxIndex member env (run OWNER_ID es st1)
      = (DropNotFound, run OWNER_ID es st1)"
    by (rule collect_absent)
next
  assume "writable st \<and> activeDrops (mem st) dropId \<noteq> None \<and> removes dropId st st1"
  then show "\<not> on_disk dropId st1" using removes_reaches_file[of st dropId st1] by blast
next
  fix d
  assume "activeDrops (mem st) dropId = Some d \<and> now > expiresAt d"
  then show expired: "fst (collect now dropId boxIndex member env st) = DropExpired"
    by (simp add: collect_def)
  then show "removes dropId st (snd (collect now dropId boxIndex member env st))"
    unfolding removes_def by blast
qed

theorem removed_drop_never_claimed_witness:
  "removes demo_id demo_bot (visibility_fire demo_id 10000 demo_bot)
   \<and> demo_id \<notin> set (concat (map created_ids demo_events_restart))
   \<and> \<not> on_disk demo_id (visibility_fire demo_id 10000 demo_bot)
   \<and> collect 5000 demo_id ''0'' (Some ''B'') demo_troll
         (run ''owner'' demo_events_restart (visibility_fire demo_id 10000 demo_bot))
       = (DropNotFound, run ''owner'' demo_events_restart (visibility_fire demo_id 10000 demo_bot))
   \<and> removes demo_id unwritable_bot (visibility_fire demo_id 10000 unwritable_bot)
   \<and> on_disk demo_id (visibility_fire demo_id 10000 unwritable_bot)
   \<and> \<not> list_ex reloads demo_events
   \<and> collect 5000 demo_id ''0'' (Some ''B'') demo_troll
         (run ''owner'' demo_events (visibility_fire demo_id 10000 unwritable_bot))
       = (DropNotFound, run ''owner'' demo_events (visibility_fire demo_id 10000 unwritable_bot))
   \<and> activeDrops (mem demo_bot) demo_id = Some demo_drop
   \<and> 172801001 > expiresAt demo_drop
   \<and> fst (collect 172801001 demo_id ''0'' (Some ''A'') demo_troll demo_bot) = DropExpired"
proof -
  have r: "removes demo_id demo_bot (visibility_fire demo_id 10000 demo_bot)"
    unfolding removes_def by blast
  have r': "removes demo_id unwritable_bot (visibility_fire demo_id 10000 unwritable_bot)"
    unfolding removes_def by blast
  have c: "demo_id \<notin> set (concat (map created_ids demo_events))"
    by (simp add: demo_events_def demo_env_id demo_id_def)
  then have c': "demo_id \<notin> set (concat (map created_ids demo_events_restart))"
    by (simp add: demo_events_restart_def)
  have q: "\<forall>e\<in>set demo_events. \<not> reloads e"
    by (simp add: demo_events_def)
  then have q': "\<not> list_ex reloads demo_events"
    by (simp add: list_ex_iff)
  have p: "activeDrops (mem demo_bot) demo_id = Some demo_drop"
    by (simp add: demo_defs)
  have w: "writable demo_bot"
    by (simp add: demo_defs)
  have l: "172801001 > expiresAt demo_drop"
    by (simp add: demo_defs)
  have f: "on_disk demo_id (visibility_fire demo_id 10000 unwritable_bot)"
    by (simp add: visibility_fire_def expire_if_active_def saveStorage_def delete_drop_def
          unwritable_bot_def on_disk_def disk_drop_def snapshot_def demo_defs)
  note t = removed_drop_never_claimed[where dropId = demo_id and OWNER_ID = "''owner''"
      and boxIndex = "''0''" and env = demo_troll]
  have n: "\<not> on_disk demo_id (visibility_fire demo_id 10000 demo_bot)"
    using t[where st = demo_bot and ?st1.0 = "visibility_fire demo_id 10000 demo_bot"] r p w
    by blast
  have "collect 5000 demo_id ''0'' (Some ''B'') demo_troll
         (run ''owner'' demo_events_restart (visibility_fire demo_id 10000 demo_bot))
       = (DropNotFound, run ''owner'' demo_events_restart (visibility_fire demo_id 10000 demo_bot))"
    using t[where st = demo_bot and ?st1.0 = "visibility_fire demo_id 10000 demo_bot"
        and es = demo_events_restart and now = 5000 and member = "Some ''B''"] r c' n
    by blast
  moreover have "collect 5000 demo_id ''0'' (Some ''B'') demo_troll
         (run ''owner'' demo_events (visibility_fire demo_id 10000 unwritable_bot))
       = (DropNotFound, run ''owner'' demo_events (visibility_fire demo_id 10000 unwritable_bot))"
    using t[where st = unwritable_bot and ?st1.0 = "visibility_fire demo_id 10000 unwritable_bot"
        and es = demo_events and now = 5000 and member = "Some ''B''"] r' c q
    by blast
  moreover have "fst (collect 172801001 demo_id ''0'' (Some ''A'') demo_troll demo_bot) = DropExpired"
    using t[where st = demo_bot and now = 172801001 and member = "Some ''A''"] p l by blast
  ultimately show ?thesis using r r' c' n f q' p l by blast
qed

section \<open>Order of showing and saving a new drop\<close>

text \<open>
  C5, as stated, does not hold. In the run that sends the demo drop from a freshly started
  bot, the second state is the one in which the message has been delivered: the drop is
  shown there and the storage file has no entry for it.
\<close>

theorem shown_before_saved:
  "length (sendGiftDrop_steps demo_env ''c1'' (Sent ''m2'') fresh_bot) = 4
   \<and> shown (env_drop_id demo_env) (sendGiftDrop_steps demo_env ''c1'' (Sent ''m2'') fresh_bot ! 1)
   \<and> \<not> on_disk (env_drop_id demo_env) (sendGiftDrop_steps demo_env ''c1'' (Sent ''m2'') fresh_bot ! 1)"
  by (simp add: send_defs fresh_bot_def shown_def on_disk_def disk_drop_def)

text \<open>
  C5, amended. \<open>sendGiftDrop\<close> registers the new drop in memory before the message is
  sent and leaves the storage file untouched until the message has been shown. When the
  send succeeds and the file is writable, the drop is then written to the file together
  with the message and channel ids, before the two timers are armed and before the
  function returns.
\<close>

theorem saved_after_shown:
  "writable st \<longrightarrow>
     (\<exists>s1 s2 s3 s4.
        sendGiftDrop_steps env channel (Sent sentId) st = [s1, s2, s3, s4]
        \<and> sendGiftDrop env channel (Sent sentId) st = s4
        \<and> activeDrops (mem s1) (env_drop_id env) = Some (new_drop env)
        \<and> disk s1 = disk st \<and> posted s1 = posted st
        \<and> activeDrops (mem s2) (env_drop_id env) = Some (new_drop env)
        \<and> disk s2 = disk st \<and> shown (env_drop_id env) s2
        \<and> disk_drop s3 (env_drop_id env)
             = Some ((new_drop env)\<lparr>messageId := Some sentId, channelId := Some channel\<rparr>)
        \<and> timers s3 = timers st
        \<and> disk s4 = disk s3 \<and> on_disk (env_drop_id env) s4
        \<and> timers s4 = timers st @
             [VisibilityTimer (env_drop_id env) DROP_MESSAGE_LIFETIME_MS,
              ValidityTimer (env_drop_id env)
                (nat (max 0 (int (expiresAt (new_drop env)) - int (now_armed env))))])"
  by (simp add: sendGiftDrop_def send_defs shown_def on_disk_def disk_drop_def snapshot_def)

theorem saved_after_shown_witness:
  "writable fresh_bot
   \<and> \<not> on_disk (env_drop_id demo_env) fresh_bot
   \<and> on_disk (env_drop_id demo_env) (sendGiftDrop demo_env ''c1'' (Sent ''m2'') fresh_bot)
   \<and> timers (sendGiftDrop demo_env ''c1'' (Sent ''m2'') fresh_bot)
       = [VisibilityTimer ''drop_1000_5000'' 10000, ValidityTimer ''drop_1000_5000'' 172799999]"
proof -
  have w: "writable fresh_bot" by (simp add: fresh_bot_def)
  have n: "\<not> on_disk (env_drop_id demo_env) fresh_bot"
    by (simp add: fresh_bot_def on_disk_def disk_drop_def)
  have t: "timers fresh_bot = []" by (simp add: fresh_bot_def)
  have e: "expiresAt (new_drop demo_env) = 172801000" "now_armed demo_env = 1001"
    by (simp_all add: new_drop_def demo_env_def DROP_EXPIRE_HOURS_def)
  from saved_after_shown[of fresh_bot demo_env "''c1''" "''m2''"] w
  obtain s1 s2 s3 s4 where
    "sendGiftDrop demo_env ''c1'' (Sent ''m2'') fresh_bot = s4"
    "on_disk (env_drop_id demo_env) s4"
    "timers s4 = timers fresh_bot @
             [VisibilityTimer (env_drop_id demo_env) DROP_MESSAGE_LIFETIME_MS,
              ValidityTimer (env_drop_id demo_env)
                (nat (max 0 (int (expiresAt (new_drop demo_env)) - int (now_armed demo_env))))]"
    by blast
  then show ?thesis using w n t e
    by (simp add: demo_env_id DROP_MESSAGE_LIFETIME_MS_def)
qed

section \<open>Scheduler re-arming\<close>

lemma randInt_5_10: "randInt 5 10 r = nat \<lfloor>r * 6\<rfloor> + 5"
  by (simp add: randInt_def)

lemma randInt_range: "unit_draw r \<Longrightarrow> 5 \<le> randInt 5 10 r \<and> randInt 5 10 r \<le> 10"
proof -
  assume u: "unit_draw r"
  then have "r * 6 < 6" by (simp add: unit_draw_def)
  then have "\<lfloor>r * 6\<rfloor> < 6" by (simp add: floor_less_iff)
  then show ?thesis unfolding randInt_5_10 by linarith
qed

lemma randInt_preimage:
  assumes "unit_draw r"
  shows "randInt 5 10 r = 5 + k \<longleftrightarrow> real k / 6 \<le> r \<and> r < real (k + 1) / 6"
proof -
  have nn: "0 \<le> \<lfloor>r * 6\<rfloor>" using assms by (simp add: unit_draw_def)
  have "randInt 5 10 r = 5 + k \<longleftrightarrow> \<lfloor>r * 6\<rfloor> = int k"
    unfolding randInt_5_10 using nn by linarith
  also have "\<dots> \<longleftrightarrow> real k \<le> r * 6 \<and> r * 6 < real k + 1"
    by (simp add: floor_eq_iff)
  also have "\<dots> \<longleftrightarrow> real k / 6 \<le> r \<and> r < real (k + 1) / 6"
    by (auto simp: field_simps)
  finally show ?thesis .
qed

lemma sendGiftDrop_scheduler_timers:
  "filter is_scheduler (timers (sendGiftDrop env channel res st)) = filter is_scheduler (timers st)"
  by (auto simp: sendGiftDrop_def sendGiftDrop_steps_def Let_def sendGiftDrop_register_def
        put_drop_def sendGiftDrop_shown_def sendGiftDrop_record_def sendGiftDrop_arm_def
        saveStorage_def is_scheduler_def split: send_result.splits option.splits)

lemma auto_drop_loop_scheduler_timers:
  "filter is_scheduler (timers (snd (auto_drop_loop gs st))) = filter is_scheduler (timers st)"
  by (induction gs st rule: auto_drop_loop.induct) (simp_all add: sendGiftDrop_scheduler_timers)

lemma auto_drop_attempt_scheduler_timers:
  "filter is_scheduler (timers (snd (auto_drop_attempt gs st))) = filter is_scheduler (timers st)"
  by (simp add: auto_drop_attempt_def auto_drop_loop_scheduler_timers split: option.splits)

text \<open>
  C6. A firing of the scheduler timer, whatever the drop attempt did (also when it threw),
  leaves exactly one new scheduler timer behind: the scheduler timers afterwards are the
  earlier ones without the fired one, followed by one with the delay of this firing's own
  draw. That delay is a whole number of minutes from 5 to 10, and minute \<open>5 + k\<close> is
  taken exactly for the draws in \<open>[k/6, (k+1)/6)\<close>, six intervals of the same length.
\<close>

theorem scheduler_rearms_once:
  "unit_draw r \<longrightarrow>
     filter is_scheduler (timers (scheduler_fire delay gs r st))
       = filter is_scheduler (remove1 (SchedulerTimer delay) (timers st))
           @ [SchedulerTimer (next_delay r)]
     \<and> (\<exists>minutes. 5 \<le> minutes \<and> minutes \<le> 10 \<and> next_delay r = minutes * 60 * 1000)
     \<and> (\<forall>k. (next_delay r = (5 + k) * 60 * 1000)
              = (real k / 6 \<le> r \<and> r < real (k + 1) / 6))"
proof (intro impI conjI allI)
  assume u: "unit_draw r"
  let ?st0 = "st\<lparr>timers := remove1 (SchedulerTimer delay) (timers st)\<rparr>"
  have "filter is_scheduler (timers (snd (auto_drop_attempt gs ?st0)))
      = filter is_scheduler (remove1 (SchedulerTimer delay) (timers st))"
    by (simp add: auto_drop_attempt_scheduler_timers)
  then show "filter is_scheduler (timers (scheduler_fire delay gs r st))
       = filter is_scheduler (remove1 (SchedulerTimer delay) (timers st))
           @ [SchedulerTimer (next_delay r)]"
    by (cases "auto_drop_attempt gs ?st0")
       (simp add: scheduler_fire_def Let_def scheduleNextDrop_def is_scheduler_def)
  show "\<exists>minutes. 5 \<le> minutes \<and> minutes \<le> 10 \<and> next_delay r = minutes * 60 * 1000"
    using randInt_range[OF u] by (intro exI[of _ "randInt 5 10 r"]) (simp add: next_delay_def)
  fix k
  show "(next_delay r = (5 + k) * 60 * 1000) = (real k / 6 \<le> r \<and> r < real (k + 1) / 6)"
  proof -
    have "(next_delay r = (5 + k) * 60 * 1000) = (randInt 5 10 r = 5 + k)"
      unfolding next_delay_def by auto
    then show ?thesis using randInt_preimage[OF u, of k] by simp
  qed
qed

theorem scheduler_rearms_once_witness:
  "unit_draw (1/2)
   \<and> fst (auto_drop_attempt [ChannelCheckThrows] (auto_bot\<lparr>timers := []\<rparr>)) = True
   \<and> timers (scheduler_fire 300000 [ChannelCheckThrows] (1/2) auto_bot) = [SchedulerTimer 480000]
   \<and> fst (auto_drop_attempt [ChannelText demo_env ''c1'' (Sent ''m2'')] (auto_bot\<lparr>timers := []\<rparr>))
       = False
   \<and> filter is_scheduler
        (timers (scheduler_fire 300000 [ChannelText demo_env ''c1'' (Sent ''m2'')] (1/2) auto_bot))
       = [SchedulerTimer 480000]
   \<and> next_delay (1/2) = (5 + 3) * 60 * 1000"
proof -
  have u: "unit_draw (1/2)" by (simp add: unit_draw_def)
  have d: "next_delay (1/2) = 480000" by (simp add: next_delay_def randInt_def)
  have t: "timers auto_bot = [SchedulerTimer 300000]" by (simp add: auto_bot_def)
  have a: "fst (auto_drop_attempt [ChannelCheckThrows] (auto_bot\<lparr>timers := []\<rparr>)) = True"
    by (simp add: auto_drop_attempt_def auto_bot_def initial_storage_def DROP_CHANNEL_ID_def
          truthy_def)
  have b: "fst (auto_drop_attempt [ChannelText demo_env ''c1'' (Sent ''m2'')]
                 (auto_bot\<lparr>timers := []\<rparr>)) = False"
    by (simp add: auto_drop_attempt_def auto_bot_def initial_storage_def DROP_CHANNEL_ID_def
          truthy_def)
  have e: "timers (scheduler_fire 300000 [ChannelCheckThrows] (1/2) auto_bot)
      = [SchedulerTimer 480000]"
    using a d t
    by (simp add: scheduler_fire_def scheduleNextDrop_def auto_drop_attempt_def auto_bot_def
          initial_storage_def DROP_CHANNEL_ID_def truthy_def)
  show ?thesis
    using scheduler_rearms_once[of "1/2" 300000 "[ChannelText demo_env ''c1'' (Sent ''m2'')]" auto_bot]
      scheduler_rearms_once[of "1/2" 300000 "[ChannelCheckThrows]" auto_bot] u d t a b e
    by (simp add: is_scheduler_def)
qed

section \<open>Enabling automatic drops\<close>

lemma set_drop_channel_timers: "timers (snd (set_drop_channel OWNER_ID uid channel st)) = timers st"
  by (simp add: set_drop_channel_def saveStorage_def put_settings_def split: option.splits)

lemma toggle_auto_timers: "timers (snd (toggle_auto OWNER_ID uid st)) = timers st"
  by (simp add: toggle_auto_def Let_def saveStorage_def put_settings_def)

lemma ready_fresh: "ready r fresh_bot = Some (fresh_bot\<lparr>disk := Json (snapshot (initial_storage None))\<rparr>)"
  by (simp add: ready_def loadStorage_def fresh_bot_def saveStorage_def initial_storage_def
        DROP_CHANNEL_ID_def truthy_def)

text \<open>
  C7, evaluated where the code departs from it. A bot started without a drop channel has
  automatic drops disabled and the \<open>ready\<close> handler arms no scheduler timer. The owner's
  \<open>/set_drop_channel\<close> with a text channel then enables automatic drops and saves the
  settings, and so does \<open>/toggle_auto\<close>; after either command there is still no scheduler
  timer, so no automatic drop follows until the process is restarted.
\<close>

theorem enabling_does_not_arm:
  "ready r fresh_bot = Some (fresh_bot\<lparr>disk := Json (snapshot (initial_storage None))\<rparr>)
   \<and> timers (fresh_bot\<lparr>disk := Json (snapshot (initial_storage None))\<rparr>) = []
   \<and> botSettings (mem (fresh_bot\<lparr>disk := Json (snapshot (initial_storage None))\<rparr>))
       = Some \<lparr> autoDropEnabled = Some False, dropChannelId = None \<rparr>
   \<and> fst (set_drop_channel ''owner'' ''owner'' (Some demo_channel)
            (fresh_bot\<lparr>disk := Json (snapshot (initial_storage None))\<rparr>)) = Done
   \<and> botSettings (mem (snd (set_drop_channel ''owner'' ''owner'' (Some demo_channel)
            (fresh_bot\<lparr>disk := Json (snapshot (initial_storage None))\<rparr>))))
       = Some \<lparr> autoDropEnabled = Some True, dropChannelId = Some ''c1'' \<rparr>
   \<and> disk_settings (snd (set_drop_channel ''owner'' ''owner'' (Some demo_channel)
            (fresh_bot\<lparr>disk := Json (snapshot (initial_storage None))\<rparr>)))
       = Some \<lparr> autoDropEnabled = Some True, dropChannelId = Some ''c1'' \<rparr>
   \<and> timers (snd (set_drop_channel ''owner'' ''owner'' (Some demo_channel)
            (fresh_bot\<lparr>disk := Json (snapshot (initial_storage None))\<rparr>))) = []
   \<and> fst (toggle_auto ''owner'' ''owner''
            (fresh_bot\<lparr>disk := Json (snapshot (initial_storage None))\<rparr>)) = Done
   \<and> botSettings (mem (snd (toggle_auto ''owner'' ''owner''
            (fresh_bot\<lparr>disk := Json (snapshot (initial_storage None))\<rparr>))))
       = Some \<lparr> autoDropEnabled = Some True, dropChannelId = None \<rparr>
   \<and> timers (snd (toggle_auto ''owner'' ''owner''
            (fresh_bot\<lparr>disk := Json (snapshot (initial_storage None))\<rparr>))) = []"
  by (simp add: ready_fresh set_drop_channel_timers toggle_auto_timers)
     (simp add: fresh_bot_def initial_storage_def DROP_CHANNEL_ID_def truthy_def
        set_drop_channel_def toggle_auto_def isOwnerId_def demo_channel_def saveStorage_def
        put_settings_def settings_or_empty_def js_or_default_def js_not_def disk_settings_def
        snapshot_def Let_def)

section \<open>Loading the storage file\<close>

lemma loadStorage_settings:
  "botSettings (mem (loadStorage st)) =
     (case disk st of
        Json p \<Rightarrow> (case doc_botSettings p of
                     Missing \<Rightarrow> botSettings (mem st) | Null \<Rightarrow> None | Present b \<Rightarrow> Some b)
      | _ \<Rightarrow> botSettings (mem st))"
  by (simp add: loadStorage_def saveStorage_def assign_field_def js_or_def Let_def
        split: disk_file.splits jfield.splits option.splits)

text \<open>
  C8, evaluated where the code departs from it. A freshly started bot that finds the
  document \<^verbatim>\<open>{"botSettings": null}\<close> loads without an exception and defaults the two
  dictionaries, but \<open>botSettings\<close> stays \<^verbatim>\<open>null\<close> (the line that should default it
  assigns the field to itself), and the \<open>ready\<close> handler then throws on reading
  \<open>botSettings.autoDropEnabled\<close>.
\<close>

theorem load_keeps_null_settings:
  "botSettings (mem null_settings_bot) = Some \<lparr> autoDropEnabled = Some False, dropChannelId = None \<rparr>
   \<and> botSettings (mem (loadStorage null_settings_bot)) = None
   \<and> userCounts (mem (loadStorage null_settings_bot)) = Map.empty
   \<and> activeDrops (mem (loadStorage null_settings_bot)) = Map.empty
   \<and> ready (1/2) null_settings_bot = None"
  by (simp add: null_settings_bot_def null_settings_doc_def fresh_bot_def initial_storage_def
        DROP_CHANNEL_ID_def truthy_def ready_def loadStorage_def assign_field_def js_or_def
        js_or_default_def Let_def)

end
